theory Spec2Isabelle
  imports Complex_Main "HOL-Library.Word"
begin

section \<open>The triangle demo: data model\<close>

text \<open>
  The program of \<^verbatim>\<open>triangle.c\<close> is a straight line of calls into the EGL, OpenGL ES,
  dispmanx and C libraries, followed by an endless frame loop. The libraries are not part
  of the sources, so every call is an event of a trace and its result is chosen by an
  environment. The program's variables (the global state record and the locals of
  \<^verbatim>\<open>init_ogl\<close> and \<^verbatim>\<open>main\<close>) form the store; a local that the code does not
  initialise keeps whatever the initial store holds.

  Integer types are those of the 32-bit ARM userland the dispmanx libraries exist for:
  \<^verbatim>\<open>uint32_t\<close>, \<^verbatim>\<open>int32_t\<close>, \<^verbatim>\<open>GLuint\<close>, \<^verbatim>\<open>GLint\<close>, \<^verbatim>\<open>GLenum\<close>, \<^verbatim>\<open>EGLint\<close>,
  \<^verbatim>\<open>EGLBoolean\<close>, \<^verbatim>\<open>long\<close> and the handle types are 32-bit words; a signed type is read
  with \<open>sint\<close>.
\<close>

type_synonym u32 = "32 word"
type_synonym handle = "32 word"

text \<open>\<^verbatim>\<open>OPENGL_STATE_T\<close> (the field \<^verbatim>\<open>context\<close> is named \<open>context_h\<close> here).\<close>

record opengl_state =
  screen_width :: u32
  screen_height :: u32
  display :: handle
  surface :: handle
  context_h :: handle
  vshader :: u32
  fshader :: u32
  program :: u32
  attr_vertex :: u32
  vbo_triangle :: u32
  verbose :: u32

text \<open>
  \<^verbatim>\<open>VC_RECT_T\<close> (fields \<^verbatim>\<open>x\<close>, \<^verbatim>\<open>y\<close>, \<^verbatim>\<open>width\<close>, \<^verbatim>\<open>height\<close>),
  \<^verbatim>\<open>EGL_DISPMANX_WINDOW_T\<close> (fields \<^verbatim>\<open>element\<close>, \<^verbatim>\<open>width\<close>, \<^verbatim>\<open>height\<close>);
  \<^verbatim>\<open>struct timeval\<close> follows below.
\<close>

record vc_rect =
  rect_x :: u32
  rect_y :: u32
  rect_width :: u32
  rect_height :: u32

record egl_dispmanx_window =
  element :: handle
  win_width :: u32
  win_height :: u32

text \<open>
  The named constants of the EGL, GL and dispmanx headers that the code passes to the
  libraries. The headers are not among the sources, so the names stay symbolic; an
  \<^verbatim>\<open>EGLint\<close> array element is a named constant or a literal.
\<close>

datatype egl_const =
  EGL_RED_SIZE | EGL_GREEN_SIZE | EGL_BLUE_SIZE | EGL_ALPHA_SIZE
| EGL_SURFACE_TYPE | EGL_WINDOW_BIT | EGL_NONE
| EGL_CONTEXT_CLIENT_VERSION | EGL_OPENGL_ES_API
| EGLint int

datatype gl_const =
  GL_COLOR_BUFFER_BIT | GL_VERTEX_SHADER | GL_FRAGMENT_SHADER
| GL_ARRAY_BUFFER | GL_STATIC_DRAW | GL_FLOAT | GL_TRIANGLES

datatype dispmanx_const = DISPMANX_PROTECTION_NONE

text \<open>
  The values the code compares results with. The headers are not among the sources; the
  failure sentinels are the null handle and the false boolean, as the Khronos headers
  define them.
\<close>

definition NULL :: handle where "NULL = 0"
definition EGL_DEFAULT_DISPLAY :: handle where "EGL_DEFAULT_DISPLAY = 0"
definition EGL_NO_DISPLAY :: handle where "EGL_NO_DISPLAY = 0"
definition EGL_NO_CONTEXT :: handle where "EGL_NO_CONTEXT = 0"
definition EGL_NO_SURFACE :: handle where "EGL_NO_SURFACE = 0"
definition EGL_FALSE :: u32 where "EGL_FALSE = 0"

text \<open>
  The library calls the program makes, with their arguments. Out-parameters and buffers
  that a call only writes are not arguments here; what the call wrote is in its response.
  \<open>printf\<close> carries the format string and the integer arguments; the text of an info
  log, which the driver writes, is not modelled.
\<close>

datatype api_call =
  bcm_host_init
| eglGetDisplay handle
| eglInitialize handle handle handle
| eglChooseConfig handle "egl_const list" int
| eglBindAPI egl_const
| eglCreateContext handle handle handle "egl_const list"
| graphics_get_display_size int
| vc_dispmanx_display_open int
| vc_dispmanx_update_start int
| vc_dispmanx_element_add handle handle int vc_rect handle vc_rect dispmanx_const handle handle int
| vc_dispmanx_update_submit_sync handle
| eglCreateWindowSurface handle handle egl_dispmanx_window handle
| eglMakeCurrent handle handle handle handle
| glClearColor real real real real
| glClear gl_const
| glGetError
| glCreateShader gl_const
| glShaderSource u32 int string handle
| glCompileShader u32
| glGetShaderInfoLog u32 nat handle
| glCreateProgram
| glAttachShader u32 u32
| glLinkProgram u32
| glGetProgramInfoLog u32 nat handle
| glDeleteShader u32
| glGetAttribLocation u32 string
| glGenBuffers int
| glBindBuffer gl_const u32
| glBufferData gl_const nat "real list" gl_const
| glViewport int int u32 u32
| gettimeofday handle
| printf string "u32 list"
| glUseProgram u32
| glVertexAttribPointer u32 int gl_const int nat handle
| glEnableVertexAttribArray u32
| glDrawArrays gl_const int int
| eglSwapBuffers handle handle
| glDeleteProgram u32
| glDeleteBuffers int u32

text \<open>
  What a call gives back: its return value and the contents of up to two out-parameters
  after the call (\<^verbatim>\<open>config\<close> and \<^verbatim>\<open>num_config\<close>, the display's width and height, the
  buffer name, the two fields of the time value).
\<close>

datatype resp = Resp (ret: u32) (out1: u32) (out2: u32)

type_synonym history = "(api_call \<times> resp) list"

record timeval =
  tv_sec :: u32
  tv_usec :: u32

text \<open>
  The environment answers a call from the history of the calls made before it. It also
  fixes the value that the compiled program computes for the elapsed-time expression of
  the frame loop from the two time values, where C leaves that expression undefined.
\<close>

record env =
  respond :: "history \<Rightarrow> api_call \<Rightarrow> resp"
  out_of_range :: "timeval \<Rightarrow> timeval \<Rightarrow> u32"

text \<open>
  The store: the global \<^verbatim>\<open>_state\<close>, the locals of \<^verbatim>\<open>init_ogl\<close>, the locals of
  \<^verbatim>\<open>main\<close>, and the calls made so far with their responses.
\<close>

record world =
  state :: opengl_state
  success :: u32
  result :: u32
  num_config :: u32
  nativewindow :: egl_dispmanx_window
  dispman_element :: handle
  dispman_display :: handle
  dispman_update :: handle
  dst_rect :: vc_rect
  src_rect :: vc_rect
  config :: handle
  tv :: timeval
  tv_last :: timeval
  trace :: history

text \<open>A failed \<^verbatim>\<open>assert\<close> aborts the process; nothing else stops it.\<close>

datatype error = AssertionFailed

type_synonym outcome = "(error \<times> world) + world"
type_synonym stmt = "world \<Rightarrow> outcome"

section \<open>Statements\<close>

text \<open>A sequence of statements stops at the first one that does not complete.\<close>

fun block :: "stmt list \<Rightarrow> stmt" where
  "block [] w = Inr w"
| "block (s # ss) w = (case s w of Inl e \<Rightarrow> Inl e | Inr w' \<Rightarrow> block ss w')"

text \<open>
  A library call: the arguments are read from the store, the environment answers, the
  call and its response are appended to the trace, and the code stores what it keeps.
\<close>

definition call :: "env \<Rightarrow> (world \<Rightarrow> api_call) \<Rightarrow> (resp \<Rightarrow> world \<Rightarrow> world) \<Rightarrow> stmt" where
  "call env mk store w =
     (let c = mk w; r = respond env (trace w) c
      in Inr (store r (w\<lparr>trace := trace w @ [(c, r)]\<rparr>)))"

definition ignore :: "resp \<Rightarrow> world \<Rightarrow> world" where
  "ignore r w = w"

definition assign :: "(world \<Rightarrow> world) \<Rightarrow> stmt" where
  "assign f w = Inr (f w)"

definition assert :: "(world \<Rightarrow> bool) \<Rightarrow> stmt" where
  "assert cond w = (if cond w then Inr w else Inl (AssertionFailed, w))"

text \<open>\<^verbatim>\<open>#define check() assert(glGetError() == 0)\<close>\<close>

definition check :: "env \<Rightarrow> stmt" where
  "check env w =
     (let r = respond env (trace w) glGetError; w' = w\<lparr>trace := trace w @ [(glGetError, r)]\<rparr>
      in if ret r = 0 then Inr w' else Inl (AssertionFailed, w'))"

definition if_then :: "(world \<Rightarrow> bool) \<Rightarrow> stmt \<Rightarrow> stmt" where
  "if_then cond s w = (if cond w then s w else Inr w)"

definition newline :: string where
  "newline = [CHR 0x0A]"

definition showlog :: "env \<Rightarrow> u32 \<Rightarrow> stmt" where
  "showlog env shader = block [
     call env (\<lambda>w. glGetShaderInfoLog shader 1024 NULL) ignore,
     call env (\<lambda>w. printf (''%d:shader:'' @ newline @ ''%s'' @ newline) [shader]) ignore]"

definition showprogramlog :: "env \<Rightarrow> u32 \<Rightarrow> stmt" where
  "showprogramlog env shader = block [
     call env (\<lambda>w. glGetProgramInfoLog shader 1024 NULL) ignore,
     call env (\<lambda>w. printf (''%d:program:'' @ newline @ ''%s'' @ newline) [shader]) ignore]"

section \<open>init\_ogl\<close>

definition attribute_list :: "egl_const list" where
  "attribute_list =
     [EGL_RED_SIZE, EGLint 8,
      EGL_GREEN_SIZE, EGLint 8,
      EGL_BLUE_SIZE, EGLint 8,
      EGL_ALPHA_SIZE, EGLint 8,
      EGL_SURFACE_TYPE, EGL_WINDOW_BIT,
      EGL_NONE]"

definition context_attributes :: "egl_const list" where
  "context_attributes = [EGL_CONTEXT_CLIENT_VERSION, EGLint 2, EGL_NONE]"

definition init_ogl :: "env \<Rightarrow> stmt" where
  "init_ogl env = block [
     call env (\<lambda>w. bcm_host_init) ignore,
     assign (\<lambda>w. w\<lparr>success := 0\<rparr>),

     call env (\<lambda>w. eglGetDisplay EGL_DEFAULT_DISPLAY)
       (\<lambda>r w. w\<lparr>state := (state w)\<lparr>display := ret r\<rparr>\<rparr>),
     assert (\<lambda>w. display (state w) \<noteq> EGL_NO_DISPLAY),
     check env,

     call env (\<lambda>w. eglInitialize (display (state w)) NULL NULL)
       (\<lambda>r w. w\<lparr>result := ret r\<rparr>),
     assert (\<lambda>w. EGL_FALSE \<noteq> result w),
     check env,

     call env (\<lambda>w. eglChooseConfig (display (state w)) attribute_list 1)
       (\<lambda>r w. w\<lparr>result := ret r, config := out1 r, num_config := out2 r\<rparr>),
     assert (\<lambda>w. EGL_FALSE \<noteq> result w),
     check env,

     call env (\<lambda>w. eglBindAPI EGL_OPENGL_ES_API)
       (\<lambda>r w. w\<lparr>result := ret r\<rparr>),
     assert (\<lambda>w. EGL_FALSE \<noteq> result w),
     check env,

     call env (\<lambda>w. eglCreateContext (display (state w)) (config w) EGL_NO_CONTEXT context_attributes)
       (\<lambda>r w. w\<lparr>state := (state w)\<lparr>context_h := ret r\<rparr>\<rparr>),
     assert (\<lambda>w. context_h (state w) \<noteq> EGL_NO_CONTEXT),
     check env,

     call env (\<lambda>w. graphics_get_display_size 0)
       (\<lambda>r w. w\<lparr>success := ret r,
                 state := (state w)\<lparr>screen_width := out1 r, screen_height := out2 r\<rparr>\<rparr>),
     assert (\<lambda>w. 0 \<le> sint (success w)),

     assign (\<lambda>w. w\<lparr>dst_rect := \<lparr>rect_x = 0, rect_y = 0,
       rect_width = screen_width (state w), rect_height = screen_height (state w)\<rparr>\<rparr>),
     assign (\<lambda>w. w\<lparr>src_rect := \<lparr>rect_x = 0, rect_y = 0,
       rect_width = push_bit 16 (screen_width (state w)),
       rect_height = push_bit 16 (screen_height (state w))\<rparr>\<rparr>),

     call env (\<lambda>w. vc_dispmanx_display_open 0)
       (\<lambda>r w. w\<lparr>dispman_display := ret r\<rparr>),
     call env (\<lambda>w. vc_dispmanx_update_start 0)
       (\<lambda>r w. w\<lparr>dispman_update := ret r\<rparr>),

     call env (\<lambda>w. vc_dispmanx_element_add (dispman_update w) (dispman_display w)
         0 (dst_rect w) 0
         (src_rect w) DISPMANX_PROTECTION_NONE 0 0 0)
       (\<lambda>r w. w\<lparr>dispman_element := ret r\<rparr>),

     assign (\<lambda>w. w\<lparr>nativewindow := \<lparr>element = dispman_element w,
       win_width = screen_width (state w), win_height = screen_height (state w)\<rparr>\<rparr>),
     call env (\<lambda>w. vc_dispmanx_update_submit_sync (dispman_update w)) ignore,
     check env,

     call env (\<lambda>w. eglCreateWindowSurface (display (state w)) (config w) (nativewindow w) NULL)
       (\<lambda>r w. w\<lparr>state := (state w)\<lparr>surface := ret r\<rparr>\<rparr>),
     assert (\<lambda>w. surface (state w) \<noteq> EGL_NO_SURFACE),
     check env,

     call env (\<lambda>w. eglMakeCurrent (display (state w)) (surface (state w)) (surface (state w))
         (context_h (state w)))
       (\<lambda>r w. w\<lparr>result := ret r\<rparr>),
     assert (\<lambda>w. EGL_FALSE \<noteq> result w),
     check env,

     call env (\<lambda>w. glClearColor 0 0 0 1) ignore,
     call env (\<lambda>w. glClear GL_COLOR_BUFFER_BIT) ignore,
     check env]"

section \<open>init\_scene\<close>

definition vShaderSource :: string where
  "vShaderSource =
     ''attribute vec4 vertex;                     '' @ newline @
     ''void main()                                '' @ newline @
     ''{                                          '' @ newline @
     ''    gl_Position = vertex;                  '' @ newline @
     ''}                                          '' @ newline"

definition fShaderSource :: string where
  "fShaderSource =
     ''void main()                                         '' @ newline @
     ''{                                                   '' @ newline @
     ''    gl_FragColor = vec4(0.0, 0.0, 1.0, 0.5);        '' @ newline @
     ''}                                                   '' @ newline"

text \<open>A counter-clockwise triangle: lower left, lower right, top center.\<close>

definition triangle_vertex_data :: "real list" where
  "triangle_vertex_data =
     [-1, -1, 0,
       1, -1, 0,
       0,  1, 0]"

definition sizeof_GLfloat :: nat where
  "sizeof_GLfloat = 4"

text \<open>
  \<^verbatim>\<open>glGetAttribLocation\<close> returns a \<^verbatim>\<open>GLint\<close>; the field \<^verbatim>\<open>attr_vertex\<close> is a
  \<^verbatim>\<open>GLuint\<close>, so the assignment converts the signed value to unsigned.
\<close>

definition GLint_to_GLuint :: "u32 \<Rightarrow> u32" where
  "GLint_to_GLuint v = word_of_int (sint v)"

definition init_scene :: "env \<Rightarrow> stmt" where
  "init_scene env = block [
     call env (\<lambda>w. glCreateShader GL_VERTEX_SHADER)
       (\<lambda>r w. w\<lparr>state := (state w)\<lparr>vshader := ret r\<rparr>\<rparr>),
     call env (\<lambda>w. glShaderSource (vshader (state w)) 1 vShaderSource 0) ignore,
     call env (\<lambda>w. glCompileShader (vshader (state w))) ignore,
     check env,
     if_then (\<lambda>w. verbose (state w) \<noteq> 0) (\<lambda>w. showlog env (vshader (state w)) w),

     call env (\<lambda>w. glCreateShader GL_FRAGMENT_SHADER)
       (\<lambda>r w. w\<lparr>state := (state w)\<lparr>fshader := ret r\<rparr>\<rparr>),
     call env (\<lambda>w. glShaderSource (fshader (state w)) 1 fShaderSource 0) ignore,
     call env (\<lambda>w. glCompileShader (fshader (state w))) ignore,
     check env,
     if_then (\<lambda>w. verbose (state w) \<noteq> 0) (\<lambda>w. showlog env (fshader (state w)) w),

     call env (\<lambda>w. glCreateProgram)
       (\<lambda>r w. w\<lparr>state := (state w)\<lparr>program := ret r\<rparr>\<rparr>),
     call env (\<lambda>w. glAttachShader (program (state w)) (vshader (state w))) ignore,
     call env (\<lambda>w. glAttachShader (program (state w)) (fshader (state w))) ignore,
     call env (\<lambda>w. glLinkProgram (program (state w))) ignore,
     check env,
     if_then (\<lambda>w. verbose (state w) \<noteq> 0) (\<lambda>w. showprogramlog env (program (state w)) w),

     call env (\<lambda>w. glDeleteShader (vshader (state w))) ignore,
     call env (\<lambda>w. glDeleteShader (fshader (state w))) ignore,

     call env (\<lambda>w. glGetAttribLocation (program (state w)) ''vertex'')
       (\<lambda>r w. w\<lparr>state := (state w)\<lparr>attr_vertex := GLint_to_GLuint (ret r)\<rparr>\<rparr>),

     call env (\<lambda>w. glGenBuffers 1)
       (\<lambda>r w. w\<lparr>state := (state w)\<lparr>vbo_triangle := out1 r\<rparr>\<rparr>),
     check env,
     call env (\<lambda>w. glBindBuffer GL_ARRAY_BUFFER (vbo_triangle (state w))) ignore,
     call env (\<lambda>w. glBufferData GL_ARRAY_BUFFER
         (length triangle_vertex_data * sizeof_GLfloat) triangle_vertex_data GL_STATIC_DRAW) ignore]"

section \<open>render\<close>

definition render :: "env \<Rightarrow> u32 \<Rightarrow> stmt" where
  "render env delta = block [
     call env (\<lambda>w. printf (''%ld microseconds'' @ newline) [delta]) ignore,

     call env (\<lambda>w. glUseProgram (program (state w))) ignore,
     call env (\<lambda>w. glVertexAttribPointer (attr_vertex (state w)) 3 GL_FLOAT 0
         (3 * sizeof_GLfloat) 0) ignore,
     call env (\<lambda>w. glEnableVertexAttribArray (attr_vertex (state w))) ignore,
     call env (\<lambda>w. glDrawArrays GL_TRIANGLES 0 3) ignore]"

section \<open>main\<close>

text \<open>
  The argument of \<^verbatim>\<open>render\<close> in the frame loop,
  \<^verbatim>\<open>(tv.tv_sec - tv_last.tv_sec) * 1e6 + tv.tv_usec - tv_last.tv_usec\<close>, converted to the
  parameter type \<^verbatim>\<open>long\<close>. The difference of the seconds is a \<^verbatim>\<open>long\<close> subtraction,
  undefined when it overflows. The product and the sums are computed in \<^verbatim>\<open>double\<close>;
  their operands and results are integers of magnitude below \<open>2 ^ 53\<close>, which a
  \<^verbatim>\<open>double\<close> holds exactly, so they are the integer operations. The conversion of the
  result to \<^verbatim>\<open>long\<close> is undefined when the value is out of the range of \<^verbatim>\<open>long\<close>.
  \<open>elapsed_microseconds\<close> is the value where C defines it and \<open>None\<close> elsewhere.
  The code does not test for this: the compiled program computes some value there too
  and goes on with it. \<open>elapsed_long\<close> is the value the program passes on: the defined
  one, and otherwise the one the environment fixes.
\<close>

definition in_long :: "int \<Rightarrow> bool" where
  "in_long i = (- (2 ^ 31) \<le> i \<and> i < 2 ^ 31)"

definition elapsed_microseconds :: "timeval \<Rightarrow> timeval \<Rightarrow> u32 option" where
  "elapsed_microseconds t t_last =
     (let ds = sint (tv_sec t) - sint (tv_sec t_last)
      in if \<not> in_long ds then None
         else let d = ds * 1000000 + sint (tv_usec t) - sint (tv_usec t_last)
              in if in_long d then Some (word_of_int d) else None)"

definition elapsed_long :: "env \<Rightarrow> timeval \<Rightarrow> timeval \<Rightarrow> u32" where
  "elapsed_long env t t_last =
     (case elapsed_microseconds t t_last of
        Some delta \<Rightarrow> delta
      | None \<Rightarrow> out_of_range env t t_last)"

text \<open>\<^verbatim>\<open>memset( state, 0, sizeof( *state ) )\<close>\<close>

definition zero_state :: opengl_state where
  "zero_state = \<lparr>screen_width = 0, screen_height = 0, display = 0, surface = 0,
     context_h = 0, vshader = 0, fshader = 0, program = 0, attr_vertex = 0,
     vbo_triangle = 0, verbose = 0\<rparr>"

text \<open>The statements of \<^verbatim>\<open>main\<close> before the render loop.\<close>

definition main_setup :: "env \<Rightarrow> stmt" where
  "main_setup env = block [
     assign (\<lambda>w. w\<lparr>state := zero_state\<rparr>),
     init_ogl env,
     init_scene env,
     call env (\<lambda>w. glViewport 0 0 (screen_width (state w)) (screen_height (state w))) ignore]"

text \<open>The body of the render loop.\<close>

definition frame :: "env \<Rightarrow> stmt" where
  "frame env = block [
     call env (\<lambda>w. glClear GL_COLOR_BUFFER_BIT) ignore,

     call env (\<lambda>w. gettimeofday NULL)
       (\<lambda>r w. w\<lparr>tv := \<lparr>tv_sec = out1 r, tv_usec = out2 r\<rparr>\<rparr>),
     (\<lambda>w. render env (elapsed_long env (tv w) (tv_last w)) w),
     assign (\<lambda>w. w\<lparr>tv_last := tv w\<rparr>),

     call env (\<lambda>w. eglSwapBuffers (display (state w)) (surface (state w))) ignore,
     check env]"

text \<open>
  \<^verbatim>\<open>while(1)\<close> has no \<^verbatim>\<open>break\<close>: the loop goes on until an iteration does not complete.
  \<open>None\<close> is the run that never ends; \<open>Some (Inr w)\<close> would be the loop left
  normally in the store \<open>w\<close>.
\<close>

partial_function (option) render_loop :: "env \<Rightarrow> world \<Rightarrow> outcome option" where
  "render_loop env w =
     (case frame env w of
        Inl e \<Rightarrow> Some (Inl e)
      | Inr w' \<Rightarrow> render_loop env w')"

text \<open>The first \<open>n\<close> iterations of the render loop.\<close>

fun frames :: "env \<Rightarrow> nat \<Rightarrow> stmt" where
  "frames env 0 w = Inr w"
| "frames env (Suc n) w = (case frame env w of Inl e \<Rightarrow> Inl e | Inr w' \<Rightarrow> frames env n w')"

text \<open>The statements of \<^verbatim>\<open>main\<close> after the render loop.\<close>

definition cleanup :: "env \<Rightarrow> stmt" where
  "cleanup env = block [
     call env (\<lambda>w. glDeleteProgram (program (state w))) ignore,
     call env (\<lambda>w. glDeleteBuffers 1 (vbo_triangle (state w))) ignore]"

text \<open>
  \<^verbatim>\<open>main\<close>: \<open>None\<close> when the process runs forever, \<open>Some (Inl (e, w))\<close> when it
  stops with \<open>e\<close> in the store \<open>w\<close>, \<open>Some (Inr (c, w))\<close> when it returns the exit
  code \<open>c\<close>.
\<close>

definition main :: "env \<Rightarrow> world \<Rightarrow> ((error \<times> world) + (int \<times> world)) option" where
  "main env w0 =
     (case main_setup env w0 of
        Inl e \<Rightarrow> Some (Inl e)
      | Inr w \<Rightarrow>
          (case render_loop env w of
             None \<Rightarrow> None
           | Some (Inl e) \<Rightarrow> Some (Inl e)
           | Some (Inr w') \<Rightarrow>
               (case cleanup env w' of
                  Inl e \<Rightarrow> Some (Inl e)
                | Inr w'' \<Rightarrow> Some (Inr (0, w'')))))"

section \<open>Observing a run\<close>

text \<open>
  The calls made, with their responses, between the store \<open>w\<close> and a later store \<open>w'\<close>, and the calls alone.
\<close>

definition new_events :: "world \<Rightarrow> world \<Rightarrow> history" where
  "new_events w w' = drop (length (trace w)) (trace w')"

definition new_calls :: "world \<Rightarrow> world \<Rightarrow> api_call list" where
  "new_calls w w' = map fst (new_events w w')"

text \<open>
  \<^verbatim>\<open>main\<close> up to the end of the \<open>n\<close>-th iteration of the frame loop: the observable prefixes of a run.
\<close>

definition main_upto :: "env \<Rightarrow> nat \<Rightarrow> stmt" where
  "main_upto env n = block [main_setup env, frames env n]"

text \<open>
  A statement follows \<open>R\<close> and \<open>E\<close> when \<open>R\<close> relates the store before it to the store after it whenever it completes, and \<open>E\<close> relates the store before it to the store it stops in. A pair \<open>R\<close>, \<open>E\<close> composes when a sequence of statements that follow it follows it.
\<close>

definition follows :: "(world \<Rightarrow> world \<Rightarrow> bool) \<Rightarrow> (error \<Rightarrow> world \<Rightarrow> world \<Rightarrow> bool) \<Rightarrow> stmt \<Rightarrow> bool" where
  "follows R E s = (\<forall>w. case s w of Inr w' \<Rightarrow> R w w' | Inl (e, w') \<Rightarrow> E e w w')"

definition composes :: "(world \<Rightarrow> world \<Rightarrow> bool) \<Rightarrow> (error \<Rightarrow> world \<Rightarrow> world \<Rightarrow> bool) \<Rightarrow> bool" where
  "composes R E = ((\<forall>w. R w w) \<and> (\<forall>a b c. R a b \<longrightarrow> R b c \<longrightarrow> R a c) \<and>
     (\<forall>a b c e. R a b \<longrightarrow> E e b c \<longrightarrow> E e a c))"

text \<open>
  The responses on which the code asserts, and when the assertion fails: the sentinel comparisons that follow the EGL calls and \<^verbatim>\<open>graphics_get_display_size\<close>, and the comparison of the error code in \<^verbatim>\<open>check()\<close>. The result of no other call is compared with anything.
\<close>

fun assertion_fails :: "api_call \<times> resp \<Rightarrow> bool" where
  "assertion_fails (eglGetDisplay d, r) = (ret r = EGL_NO_DISPLAY)"
| "assertion_fails (eglInitialize d a b, r) = (ret r = EGL_FALSE)"
| "assertion_fails (eglChooseConfig d a n, r) = (ret r = EGL_FALSE)"
| "assertion_fails (eglBindAPI a, r) = (ret r = EGL_FALSE)"
| "assertion_fails (eglCreateContext d c s a, r) = (ret r = EGL_NO_CONTEXT)"
| "assertion_fails (graphics_get_display_size n, r) = (sint (ret r) < 0)"
| "assertion_fails (eglCreateWindowSurface d c n a, r) = (ret r = EGL_NO_SURFACE)"
| "assertion_fails (eglMakeCurrent d s1 s2 c, r) = (ret r = EGL_FALSE)"
| "assertion_fails (glGetError, r) = (ret r \<noteq> 0)"
| "assertion_fails (_, r) = False"

text \<open>
  The calls made since \<open>w\<close> all passed their assertions; the process stopped on a failed assertion whose call is the last one made, all calls before it having passed.
\<close>

definition checks_pass :: "world \<Rightarrow> world \<Rightarrow> bool" where
  "checks_pass w w' = (\<exists>evs. trace w' = trace w @ evs \<and> list_all (\<lambda>ev. \<not> assertion_fails ev) evs)"

definition stops_at_failure :: "error \<Rightarrow> world \<Rightarrow> world \<Rightarrow> bool" where
  "stops_at_failure e w w' = (e = AssertionFailed \<and>
     (\<exists>evs ev. trace w' = trace w @ evs @ [ev] \<and>
        list_all (\<lambda>ev. \<not> assertion_fails ev) evs \<and> assertion_fails ev))"

text \<open>
  Provided \<open>I\<close> holds before, \<open>I\<close> holds after and every call made in between satisfies \<open>P\<close>; and the statements that always do so, however they end.
\<close>

definition keeps :: "(world \<Rightarrow> bool) \<Rightarrow> (api_call \<Rightarrow> bool) \<Rightarrow> world \<Rightarrow> world \<Rightarrow> bool" where
  "keeps I P w w' =
     (I w \<longrightarrow> I w' \<and> (\<exists>evs. trace w' = trace w @ evs \<and> list_all (\<lambda>ev. P (fst ev)) evs))"

definition always :: "(world \<Rightarrow> bool) \<Rightarrow> (api_call \<Rightarrow> bool) \<Rightarrow> stmt \<Rightarrow> bool" where
  "always I P s = follows (keeps I P) (\<lambda>e. keeps I P) s"

text \<open>
  The kinds of calls that occur in the text of \<^verbatim>\<open>init_ogl\<close>, of \<^verbatim>\<open>init_scene\<close> (logging apart), of the frame loop with \<^verbatim>\<open>render\<close>, and the \<^verbatim>\<open>glViewport\<close> call of \<^verbatim>\<open>main\<close>.
\<close>

fun ogl_call :: "api_call \<Rightarrow> bool" where
  "ogl_call bcm_host_init = True"
| "ogl_call (eglGetDisplay _) = True"
| "ogl_call (eglInitialize _ _ _) = True"
| "ogl_call (eglChooseConfig _ _ _) = True"
| "ogl_call (eglBindAPI _) = True"
| "ogl_call (eglCreateContext _ _ _ _) = True"
| "ogl_call (graphics_get_display_size _) = True"
| "ogl_call (vc_dispmanx_display_open _) = True"
| "ogl_call (vc_dispmanx_update_start _) = True"
| "ogl_call (vc_dispmanx_element_add _ _ _ _ _ _ _ _ _ _) = True"
| "ogl_call (vc_dispmanx_update_submit_sync _) = True"
| "ogl_call (eglCreateWindowSurface _ _ _ _) = True"
| "ogl_call (eglMakeCurrent _ _ _ _) = True"
| "ogl_call (glClearColor _ _ _ _) = True"
| "ogl_call (glClear _) = True"
| "ogl_call glGetError = True"
| "ogl_call _ = False"

fun scene_call :: "api_call \<Rightarrow> bool" where
  "scene_call (glCreateShader _) = True"
| "scene_call (glShaderSource _ _ _ _) = True"
| "scene_call (glCompileShader _) = True"
| "scene_call glGetError = True"
| "scene_call glCreateProgram = True"
| "scene_call (glAttachShader _ _) = True"
| "scene_call (glLinkProgram _) = True"
| "scene_call (glDeleteShader _) = True"
| "scene_call (glGetAttribLocation _ _) = True"
| "scene_call (glGenBuffers _) = True"
| "scene_call (glBindBuffer _ _) = True"
| "scene_call (glBufferData _ _ _ _) = True"
| "scene_call _ = False"

fun frame_call :: "api_call \<Rightarrow> bool" where
  "frame_call (glClear _) = True"
| "frame_call (gettimeofday _) = True"
| "frame_call (printf fmt args) = (fmt = ''%ld microseconds'' @ newline)"
| "frame_call (glUseProgram _) = True"
| "frame_call (glVertexAttribPointer _ _ _ _ _ _) = True"
| "frame_call (glEnableVertexAttribArray _) = True"
| "frame_call (glDrawArrays _ _ _) = True"
| "frame_call (eglSwapBuffers _ _) = True"
| "frame_call glGetError = True"
| "frame_call _ = False"

fun is_viewport :: "api_call \<Rightarrow> bool" where
  "is_viewport (glViewport _ _ _ _) = True"
| "is_viewport _ = False"

definition main_call :: "api_call \<Rightarrow> bool" where
  "main_call c = (ogl_call c \<or> scene_call c \<or> is_viewport c \<or> frame_call c)"

text \<open>
  The calls of \<^verbatim>\<open>init_ogl\<close> and of \<^verbatim>\<open>init_scene\<close> (with the verbose flag zero) in program order, written with the handles and sizes that end up in the store.
\<close>

definition ogl_calls :: "world \<Rightarrow> api_call list" where
  "ogl_calls w =
     [bcm_host_init,
      eglGetDisplay EGL_DEFAULT_DISPLAY,
      glGetError,
      eglInitialize (display (state w)) NULL NULL,
      glGetError,
      eglChooseConfig (display (state w)) attribute_list 1,
      glGetError,
      eglBindAPI EGL_OPENGL_ES_API,
      glGetError,
      eglCreateContext (display (state w)) (config w) EGL_NO_CONTEXT context_attributes,
      glGetError,
      graphics_get_display_size 0,
      vc_dispmanx_display_open 0,
      vc_dispmanx_update_start 0,
      vc_dispmanx_element_add (dispman_update w) (dispman_display w) 0
        \<lparr>rect_x = 0, rect_y = 0,
         rect_width = screen_width (state w), rect_height = screen_height (state w)\<rparr>
        0
        \<lparr>rect_x = 0, rect_y = 0,
         rect_width = push_bit 16 (screen_width (state w)),
         rect_height = push_bit 16 (screen_height (state w))\<rparr>
        DISPMANX_PROTECTION_NONE 0 0 0,
      vc_dispmanx_update_submit_sync (dispman_update w),
      glGetError,
      eglCreateWindowSurface (display (state w)) (config w)
        \<lparr>element = dispman_element w,
         win_width = screen_width (state w), win_height = screen_height (state w)\<rparr>
        NULL,
      glGetError,
      eglMakeCurrent (display (state w)) (surface (state w)) (surface (state w))
        (context_h (state w)),
      glGetError,
      glClearColor 0 0 0 1,
      glClear GL_COLOR_BUFFER_BIT,
      glGetError]"

definition scene_calls :: "opengl_state \<Rightarrow> api_call list" where
  "scene_calls st =
     [glCreateShader GL_VERTEX_SHADER,
      glShaderSource (vshader st) 1 vShaderSource 0,
      glCompileShader (vshader st),
      glGetError,
      glCreateShader GL_FRAGMENT_SHADER,
      glShaderSource (fshader st) 1 fShaderSource 0,
      glCompileShader (fshader st),
      glGetError,
      glCreateProgram,
      glAttachShader (program st) (vshader st),
      glAttachShader (program st) (fshader st),
      glLinkProgram (program st),
      glGetError,
      glDeleteShader (vshader st),
      glDeleteShader (fshader st),
      glGetAttribLocation (program st) ''vertex'',
      glGenBuffers 1,
      glGetError,
      glBindBuffer GL_ARRAY_BUFFER (vbo_triangle st),
      glBufferData GL_ARRAY_BUFFER 36 [-1, -1, 0, 1, -1, 0, 0, 1, 0] GL_STATIC_DRAW]"

text \<open>
  The calls after which the code places \<^verbatim>\<open>check()\<close>: each EGL call, the dispmanx submit, the clear, each shader compile, the link, and the buffer generation. In a list of calls, each of them is followed by \<^verbatim>\<open>glGetError\<close>.
\<close>

fun needs_check :: "api_call \<Rightarrow> bool" where
  "needs_check (eglGetDisplay _) = True"
| "needs_check (eglInitialize _ _ _) = True"
| "needs_check (eglChooseConfig _ _ _) = True"
| "needs_check (eglBindAPI _) = True"
| "needs_check (eglCreateContext _ _ _ _) = True"
| "needs_check (vc_dispmanx_update_submit_sync _) = True"
| "needs_check (eglCreateWindowSurface _ _ _ _) = True"
| "needs_check (eglMakeCurrent _ _ _ _) = True"
| "needs_check (glClear _) = True"
| "needs_check (glCompileShader _) = True"
| "needs_check (glLinkProgram _) = True"
| "needs_check (glGenBuffers _) = True"
| "needs_check _ = False"

fun each_followed_by_check :: "api_call list \<Rightarrow> bool" where
  "each_followed_by_check (c # d # cs) =
     ((needs_check c \<longrightarrow> d = glGetError) \<and> each_followed_by_check (d # cs))"
| "each_followed_by_check [c] = (\<not> needs_check c)"
| "each_followed_by_check [] = True"

text \<open>
  Kinds of calls the claims speak about.
\<close>

fun is_lookup :: "api_call \<Rightarrow> bool" where
  "is_lookup (glGetAttribLocation _ _) = True"
| "is_lookup _ = False"

fun is_clear :: "api_call \<Rightarrow> bool" where
  "is_clear (glClear _) = True"
| "is_clear _ = False"

fun is_draw :: "api_call \<Rightarrow> bool" where
  "is_draw (glDrawArrays _ _ _) = True"
| "is_draw _ = False"

fun is_swap :: "api_call \<Rightarrow> bool" where
  "is_swap (eglSwapBuffers _ _) = True"
| "is_swap _ = False"

fun is_upload :: "api_call \<Rightarrow> bool" where
  "is_upload (glBufferData _ _ _ _) = True"
| "is_upload _ = False"

fun is_link :: "api_call \<Rightarrow> bool" where
  "is_link (glLinkProgram _) = True"
| "is_link _ = False"

fun is_delete_shader :: "api_call \<Rightarrow> bool" where
  "is_delete_shader (glDeleteShader _) = True"
| "is_delete_shader _ = False"

fun is_cleanup_call :: "api_call \<Rightarrow> bool" where
  "is_cleanup_call (glDeleteProgram _) = True"
| "is_cleanup_call (glDeleteBuffers _ _) = True"
| "is_cleanup_call _ = False"

fun is_log_call :: "api_call \<Rightarrow> bool" where
  "is_log_call (glGetShaderInfoLog _ _ _) = True"
| "is_log_call (glGetProgramInfoLog _ _ _) = True"
| "is_log_call (printf fmt args) =
     (fmt = ''%d:shader:'' @ newline @ ''%s'' @ newline \<or>
      fmt = ''%d:program:'' @ newline @ ''%s'' @ newline)"
| "is_log_call _ = False"

fun creates_or_destroys :: "api_call \<Rightarrow> bool" where
  "creates_or_destroys (eglGetDisplay _) = True"
| "creates_or_destroys (eglCreateContext _ _ _ _) = True"
| "creates_or_destroys (vc_dispmanx_display_open _) = True"
| "creates_or_destroys (vc_dispmanx_element_add _ _ _ _ _ _ _ _ _ _) = True"
| "creates_or_destroys (eglCreateWindowSurface _ _ _ _) = True"
| "creates_or_destroys (glCreateShader _) = True"
| "creates_or_destroys glCreateProgram = True"
| "creates_or_destroys (glGenBuffers _) = True"
| "creates_or_destroys (glBufferData _ _ _ _) = True"
| "creates_or_destroys (glDeleteShader _) = True"
| "creates_or_destroys (glDeleteProgram _) = True"
| "creates_or_destroys (glDeleteBuffers _ _) = True"
| "creates_or_destroys _ = False"

text \<open>
  A driver on which every call succeeds: the error code is always 0, the display is 1920 by 1080, the shaders are 1 and 2, the program is 3, the attribute is at location 0, the buffer is 1, and the clock always reads 11 s 100000 us; where the elapsed-time expression is undefined the platform yields the least \<^verbatim>\<open>long\<close>. Two variants: one whose attribute lookup fails, one whose \<^verbatim>\<open>eglInitialize\<close> fails.
\<close>

fun ok_resp :: "api_call \<Rightarrow> resp" where
  "ok_resp glGetError = Resp 0 0 0"
| "ok_resp (eglChooseConfig _ _ _) = Resp 1 7 1"
| "ok_resp (graphics_get_display_size _) = Resp 0 1920 1080"
| "ok_resp (glCreateShader GL_VERTEX_SHADER) = Resp 1 0 0"
| "ok_resp (glCreateShader GL_FRAGMENT_SHADER) = Resp 2 0 0"
| "ok_resp glCreateProgram = Resp 3 0 0"
| "ok_resp (glGetAttribLocation _ _) = Resp 0 0 0"
| "ok_resp (glGenBuffers _) = Resp 0 1 0"
| "ok_resp (gettimeofday _) = Resp 0 11 100000"
| "ok_resp _ = Resp 1 0 0"

definition env_ok :: env where
  "env_ok = \<lparr>respond = (\<lambda>h c. ok_resp c), out_of_range = (\<lambda>t t_last. - 2147483648)\<rparr>"

definition env_lookup_fails :: env where
  "env_lookup_fails = env_ok\<lparr>respond :=
     (\<lambda>h c. case c of glGetAttribLocation _ _ \<Rightarrow> Resp (- 1) 0 0 | _ \<Rightarrow> ok_resp c)\<rparr>"

definition env_init_fails :: env where
  "env_init_fails = env_ok\<lparr>respond :=
     (\<lambda>h c. case c of eglInitialize _ _ _ \<Rightarrow> Resp EGL_FALSE 0 0 | _ \<Rightarrow> ok_resp c)\<rparr>"

text \<open>
  Two stores at the start of \<^verbatim>\<open>main\<close>, nothing called yet: one whose \<open>tv_last\<close> happens to hold 10 s 500000 us, one whose \<open>tv_last\<close> holds the bytes \<^verbatim>\<open>0xAA\<close>.
\<close>

definition w_start :: world where
  "w_start = \<lparr>state = zero_state, success = 0, result = 0, num_config = 0,
     nativewindow = \<lparr>element = 0, win_width = 0, win_height = 0\<rparr>,
     dispman_element = 0, dispman_display = 0, dispman_update = 0,
     dst_rect = \<lparr>rect_x = 0, rect_y = 0, rect_width = 0, rect_height = 0\<rparr>,
     src_rect = \<lparr>rect_x = 0, rect_y = 0, rect_width = 0, rect_height = 0\<rparr>,
     config = 0, tv = \<lparr>tv_sec = 0, tv_usec = 0\<rparr>,
     tv_last = \<lparr>tv_sec = 10, tv_usec = 500000\<rparr>, trace = []\<rparr>"

definition w_garbage :: world where
  "w_garbage = w_start\<lparr>tv_last := \<lparr>tv_sec = 2863311530, tv_usec = 2863311530\<rparr>\<rparr>"

section \<open>Reasoning about statements\<close>

lemma block_Cons_Inr: "block (s # ss) w = Inr w' \<longleftrightarrow> (\<exists>w1. s w = Inr w1 \<and> block ss w1 = Inr w')"
  by (auto split: sum.splits)

lemma call_InrE: "call env mk store w = Inr w' \<Longrightarrow> (\<And>r. w' = store r (w\<lparr>trace := trace w @ [(mk w, r)]\<rparr>) \<Longrightarrow> P) \<Longrightarrow> P"
  by (auto simp: call_def Let_def)

lemma assign_Inr: "assign f w = Inr w' \<longleftrightarrow> w' = f w"
  by (auto simp: assign_def)

lemma assert_Inr: "assert c w = Inr w' \<longleftrightarrow> c w \<and> w' = w"
  by (auto simp: assert_def)

lemma check_InrE: "check env w = Inr w' \<Longrightarrow> (\<And>r. ret r = 0 \<Longrightarrow> w' = w\<lparr>trace := trace w @ [(glGetError, r)]\<rparr> \<Longrightarrow> P) \<Longrightarrow> P"
  by (auto simp: check_def Let_def split: if_splits)

declare block.simps(2) [simp del]

lemma step_call: "block (call env mk store # ss) w = Inr w' \<Longrightarrow>
  (\<And>r. block ss (store r (w\<lparr>trace := trace w @ [(mk w, r)]\<rparr>)) = Inr w' \<Longrightarrow> P) \<Longrightarrow> P"
  by (auto simp: block_Cons_Inr elim: call_InrE)

lemma step_check: "block (check env # ss) w = Inr w' \<Longrightarrow>
  (\<And>r. ret r = 0 \<Longrightarrow> block ss (w\<lparr>trace := trace w @ [(glGetError, r)]\<rparr>) = Inr w' \<Longrightarrow> P) \<Longrightarrow> P"
  by (auto simp: block_Cons_Inr elim: check_InrE)

lemma step_assign: "block (assign f # ss) w = Inr w' \<longleftrightarrow> block ss (f w) = Inr w'"
  by (auto simp: block_Cons_Inr assign_Inr)

lemma step_assert: "block (assert c # ss) w = Inr w' \<longleftrightarrow> c w \<and> block ss w = Inr w'"
  by (auto simp: block_Cons_Inr assert_Inr)

lemma step_if_then: "block (if_then c s # ss) w = Inr w' \<longleftrightarrow> (if c w then block (s # ss) w = Inr w' else block ss w = Inr w')"
  by (auto simp: block_Cons_Inr if_then_def)

lemma follows_Nil: "composes R E \<Longrightarrow> follows R E (block [])"
  by (simp add: follows_def composes_def)

lemma follows_Cons:
  assumes "composes R E" "follows R E s" "follows R E (block ss)"
  shows "follows R E (block (s # ss))"
  unfolding follows_def
proof
  fix w
  show "case block (s # ss) w of Inl (e, w') \<Rightarrow> E e w w' | Inr w' \<Rightarrow> R w w'"
  proof (cases "s w")
    case (Inl a)
    with assms(2) show ?thesis
      by (auto simp: follows_def block.simps split: sum.splits prod.splits dest!: spec[of _ w])
  next
    case (Inr w1)
    with assms(2) have 1: "R w w1"
      by (auto simp: follows_def split: sum.splits dest!: spec[of _ w])
    from assms(3) have 2: "case block ss w1 of Inl (e, w') \<Rightarrow> E e w1 w' | Inr w' \<Rightarrow> R w1 w'"
      by (simp add: follows_def)
    from assms(1) 1 2 Inr show ?thesis
      unfolding composes_def
      by (auto simp add: block.simps split: sum.splits prod.splits)
  qed
qed

lemma follows_call_assert:
  assumes "composes R E"
    and "\<And>w r. let w' = store r (w\<lparr>trace := trace w @ [(mk w, r)]\<rparr>)
               in if c w' then R w w' else E AssertionFailed w w'"
    and "follows R E (block ss)"
  shows "follows R E (block (call env mk store # assert c # ss))"
proof -
  have "follows R E (block [call env mk store, assert c])"
    using assms(2)
    by (auto simp: follows_def block.simps call_def assert_def Let_def)
  then have "follows R E (block (block [call env mk store, assert c] # ss))"
    by (rule follows_Cons[OF assms(1) _ assms(3)])
  moreover have "block (block [call env mk store, assert c] # ss) = block (call env mk store # assert c # ss)"
    by (auto simp: fun_eq_iff block.simps split: sum.splits)
  ultimately show ?thesis by simp
qed

lemma follows_call:
  "(\<And>w r. R w (store r (w\<lparr>trace := trace w @ [(mk w, r)]\<rparr>))) \<Longrightarrow> follows R E (call env mk store)"
  by (simp add: follows_def call_def Let_def)

lemma follows_check:
  "(\<And>w r. let w' = w\<lparr>trace := trace w @ [(glGetError, r)]\<rparr>
           in if ret r = 0 then R w w' else E AssertionFailed w w') \<Longrightarrow> follows R E (check env)"
  by (simp add: follows_def check_def Let_def)

lemma follows_assign: "(\<And>w. R w (f w)) \<Longrightarrow> follows R E (assign f)"
  by (simp add: follows_def assign_def)

lemma follows_assert: "(\<And>w. if c w then R w w else E AssertionFailed w w) \<Longrightarrow> follows R E (assert c)"
  by (simp add: follows_def assert_def)

lemma follows_if_then:
  "(\<And>w. \<not> c w \<Longrightarrow> R w w) \<Longrightarrow>
   (\<And>w. c w \<Longrightarrow> (case s w of Inr w' \<Rightarrow> R w w' | Inl (e, w') \<Rightarrow> E e w w')) \<Longrightarrow>
   follows R E (if_then c s)"
  by (simp add: follows_def if_then_def)

lemma followsD: "follows R E s \<Longrightarrow> (case s w of Inr w' \<Rightarrow> R w w' | Inl (e, w') \<Rightarrow> E e w w')"
  by (simp add: follows_def)

lemma checks_pass_refl: "checks_pass w w"
  by (simp add: checks_pass_def)

lemma checks_pass_trans:
  assumes "checks_pass a b" "checks_pass b c"
  shows "checks_pass a c"
proof -
  from assms obtain evs evs' where "trace c = trace a @ (evs @ evs')"
    "list_all (\<lambda>ev. \<not> assertion_fails ev) (evs @ evs')"
    by (auto simp: checks_pass_def)
  then show ?thesis
    unfolding checks_pass_def by blast
qed

lemma checks_pass_stops:
  assumes "checks_pass a b" "stops_at_failure e b c"
  shows "stops_at_failure e a c"
proof -
  from assms obtain evs evs' ev where "e = AssertionFailed"
    "trace c = trace a @ (evs @ evs') @ [ev]"
    "list_all (\<lambda>ev. \<not> assertion_fails ev) (evs @ evs')" "assertion_fails ev"
    by (auto simp: checks_pass_def stops_at_failure_def)
  then show ?thesis
    unfolding stops_at_failure_def by blast
qed

lemma composes_checks: "composes checks_pass stops_at_failure"
  unfolding composes_def
  using checks_pass_refl checks_pass_trans checks_pass_stops by blast

lemma checks_pass_one:
  "\<not> assertion_fails (c, r) \<Longrightarrow> trace w' = trace w @ [(c, r)] \<Longrightarrow> checks_pass w w'"
  by (simp add: checks_pass_def)

lemma checks_pass_none: "trace w' = trace w \<Longrightarrow> checks_pass w w'"
  by (simp add: checks_pass_def)

lemma stops_one:
  "assertion_fails (c, r) \<Longrightarrow> trace w' = trace w @ [(c, r)] \<Longrightarrow> stops_at_failure AssertionFailed w w'"
  unfolding stops_at_failure_def by (intro conjI refl exI[of _ "[]"] exI[of _ "(c, r)"]) simp_all

lemma cp_call:
  assumes "\<And>w r. \<not> assertion_fails (mk w, r)" "\<And>r w. trace (store r w) = trace w"
  shows "follows checks_pass stops_at_failure (call env mk store)"
  by (rule follows_call, rule checks_pass_one[OF assms(1)]) (simp add: assms(2))

lemma cp_check: "follows checks_pass stops_at_failure (check env)"
proof (rule follows_check)
  fix w r
  show "let w' = w\<lparr>trace := trace w @ [(glGetError, r)]\<rparr>
        in if ret r = 0 then checks_pass w w' else stops_at_failure AssertionFailed w w'"
    using checks_pass_one[of glGetError r "w\<lparr>trace := trace w @ [(glGetError, r)]\<rparr>" w]
      stops_one[of glGetError r "w\<lparr>trace := trace w @ [(glGetError, r)]\<rparr>" w]
    by (simp add: Let_def)
qed

lemma cp_assign: "(\<And>w. trace (f w) = trace w) \<Longrightarrow> follows checks_pass stops_at_failure (assign f)"
  by (rule follows_assign) (simp add: checks_pass_none)

lemma cp_call_assert:
  assumes "\<And>r w. trace (store r w) = trace w"
    and "\<And>w r. c (store r (w\<lparr>trace := trace w @ [(mk w, r)]\<rparr>)) = (\<not> assertion_fails (mk w, r))"
    and "follows checks_pass stops_at_failure (block ss)"
  shows "follows checks_pass stops_at_failure (block (call env mk store # assert c # ss))"
proof (rule follows_call_assert[OF composes_checks _ assms(3)])
  fix w r
  show "let w' = store r (w\<lparr>trace := trace w @ [(mk w, r)]\<rparr>)
        in if c w' then checks_pass w w' else stops_at_failure AssertionFailed w w'"
    using checks_pass_one[of "mk w" r "store r (w\<lparr>trace := trace w @ [(mk w, r)]\<rparr>)" w]
      stops_one[of "mk w" r "store r (w\<lparr>trace := trace w @ [(mk w, r)]\<rparr>)" w]
    by (simp add: Let_def assms(1,2))
qed

lemma init_ogl_checks: "follows checks_pass stops_at_failure (init_ogl env)"
  unfolding init_ogl_def
  by (intro cp_call_assert cp_check cp_call cp_assign follows_Cons follows_Nil composes_checks)
    (auto simp: ignore_def)

lemma cp_if_then:
  assumes "\<And>w. follows checks_pass stops_at_failure (s w)"
  shows "follows checks_pass stops_at_failure (if_then c (\<lambda>w. s w w))"
  by (rule follows_if_then) (simp_all add: checks_pass_refl followsD[OF assms])

lemma showlog_checks: "follows checks_pass stops_at_failure (showlog env sh)"
  unfolding showlog_def
  by (intro cp_call follows_Cons follows_Nil composes_checks) (auto simp: ignore_def)

lemma showprogramlog_checks: "follows checks_pass stops_at_failure (showprogramlog env sh)"
  unfolding showprogramlog_def
  by (intro cp_call follows_Cons follows_Nil composes_checks) (auto simp: ignore_def)

lemma init_scene_checks: "follows checks_pass stops_at_failure (init_scene env)"
  unfolding init_scene_def
  by (intro cp_if_then showlog_checks showprogramlog_checks cp_check cp_call cp_assign
      follows_Cons follows_Nil composes_checks)
    (auto simp: ignore_def)

lemma keeps_refl: "keeps I P w w"
  by (simp add: keeps_def)

lemma keeps_trans:
  assumes "keeps I P a b" "keeps I P b c"
  shows "keeps I P a c"
proof (cases "I a")
  case True
  with assms obtain evs evs' where "I c" "trace c = trace a @ (evs @ evs')"
    "list_all (\<lambda>ev. P (fst ev)) (evs @ evs')"
    by (auto simp: keeps_def)
  then show ?thesis
    unfolding keeps_def by blast
next
  case False
  then show ?thesis by (simp add: keeps_def)
qed

lemma composes_keeps: "composes (keeps I P) (\<lambda>e. keeps I P)"
  unfolding composes_def
  using keeps_refl keeps_trans by blast

lemma keeps_one:
  "(I w \<Longrightarrow> I w' \<and> P c) \<Longrightarrow> trace w' = trace w @ [(c, r)] \<Longrightarrow> keeps I P w w'"
  by (simp add: keeps_def)

lemma keeps_none: "(I w \<Longrightarrow> I w') \<Longrightarrow> trace w' = trace w \<Longrightarrow> keeps I P w w'"
  by (simp add: keeps_def)

lemma keepsD:
  assumes "keeps I P w w'" "I w"
  shows "I w'" "trace w' = trace w @ new_events w w'" "list_all P (new_calls w w')"
  using assms by (auto simp: keeps_def new_events_def new_calls_def list_all_iff)

lemma always_Nil: "always I P (block [])"
  unfolding always_def by (rule follows_Nil[OF composes_keeps])

lemma always_Cons: "always I P s \<Longrightarrow> always I P (block ss) \<Longrightarrow> always I P (block (s # ss))"
  unfolding always_def by (rule follows_Cons[OF composes_keeps])

lemma always_call:
  assumes "\<And>w. I w \<Longrightarrow> P (mk w)"
    and "\<And>w r. I w \<Longrightarrow> I (store r (w\<lparr>trace := trace w @ [(mk w, r)]\<rparr>))"
    and "\<And>r w. trace (store r w) = trace w"
  shows "always I P (call env mk store)"
  unfolding always_def
  by (rule follows_call, rule keeps_one) (simp_all add: assms)

lemma always_check:
  assumes "P glGetError" and "\<And>w r. I w \<Longrightarrow> I (w\<lparr>trace := trace w @ [(glGetError, r)]\<rparr>)"
  shows "always I P (check env)"
  unfolding always_def
proof (rule follows_check)
  fix w r
  have "keeps I P w (w\<lparr>trace := trace w @ [(glGetError, r)]\<rparr>)"
    by (rule keeps_one[of _ _ _ _ glGetError r]) (simp_all add: assms)
  then show "let w' = w\<lparr>trace := trace w @ [(glGetError, r)]\<rparr>
        in if ret r = 0 then keeps I P w w' else keeps I P w w'"
    by (simp add: Let_def)
qed

lemma always_assign:
  assumes "\<And>w. I w \<Longrightarrow> I (f w)" and "\<And>w. trace (f w) = trace w"
  shows "always I P (assign f)"
  unfolding always_def
  by (rule follows_assign, rule keeps_none) (simp_all add: assms)

lemma always_assert: "always I P (assert c)"
  unfolding always_def
  by (rule follows_assert) (simp add: keeps_refl)

lemma always_if_then_skip:
  assumes "\<And>w. I w \<Longrightarrow> \<not> c w"
  shows "always I P (if_then c s)"
  unfolding always_def
proof (rule follows_if_then)
  fix w assume "c w"
  then have "\<not> I w" using assms by blast
  then show "case s w of Inl (e, w') \<Rightarrow> keeps I P w w' | Inr w' \<Rightarrow> keeps I P w w'"
    by (simp add: keeps_def split: sum.splits prod.splits)
qed (simp add: keeps_refl)

lemma always_if_then:
  assumes "\<And>w. always I P (s w)"
  shows "always I P (if_then c (\<lambda>w. s w w))"
  unfolding always_def
  by (rule follows_if_then) (simp_all add: keeps_refl followsD[OF assms[unfolded always_def]])

lemma alwaysD:
  assumes "always I P s" "s w = Inr w' \<or> s w = Inl (e, w')" "I w"
  shows "I w'" "trace w' = trace w @ new_events w w'" "list_all P (new_calls w w')"
proof -
  from followsD[OF assms(1)[unfolded always_def], of w] assms(2)
  have "keeps I P w w'" by auto
  from keepsD[OF this assms(3)]
  show "I w'" "trace w' = trace w @ new_events w w'" "list_all P (new_calls w w')" .
qed

lemmas always_intros = always_Cons always_Nil always_check always_assert always_call always_assign

lemma always_weaken:
  assumes "always I P s" "\<And>c. P c \<Longrightarrow> Q c"
  shows "always I Q s"
proof -
  have "keeps I Q w w'" if "keeps I P w w'" for w w'
    using that assms(2) unfolding keeps_def list_all_iff by blast
  then show ?thesis
    using assms(1) unfolding always_def follows_def
    by (auto split: sum.splits prod.splits)
qed

lemma init_ogl_always: "always (\<lambda>w. verbose (state w) = v) ogl_call (init_ogl env)"
  unfolding init_ogl_def
  by (intro always_intros) (simp_all add: ignore_def)

lemma init_scene_always: "always (\<lambda>w. verbose (state w) = 0) scene_call (init_scene env)"
  unfolding init_scene_def
  by (intro always_if_then_skip always_intros) (simp_all add: ignore_def)

lemma render_always: "always (\<lambda>w. state w = s0) frame_call (render env d)"
  unfolding render_def
  by (intro always_intros) (simp_all add: ignore_def)

lemma frame_always: "always (\<lambda>w. state w = s0) frame_call (frame env)"
proof -
  have "always (\<lambda>w. state w = s0) frame_call
     (\<lambda>w. render env (elapsed_long env (tv w) (tv_last w)) w)"
    using render_always[of s0 env]
    unfolding always_def follows_def
    by auto
  then show ?thesis
    unfolding frame_def
    by (intro always_intros) (simp_all add: ignore_def)
qed

lemma frames_Suc_block: "frames env (Suc n) = block [frame env, frames env n]"
  by (auto simp: fun_eq_iff block.simps split: sum.splits)

lemma frames_always: "always (\<lambda>w. state w = s0) frame_call (frames env n)"
proof (induction n)
  case 0
  have eq: "frames env 0 = block []" by (simp add: fun_eq_iff)
  show ?case unfolding eq by (rule always_Nil)
next
  case (Suc n)
  show ?case
    unfolding frames_Suc_block
    by (intro always_Cons always_Nil frame_always Suc)
qed

lemma run_call:
  assumes "block (call env mk store # ss) w = res"
  obtains r where "block ss (store r (w\<lparr>trace := trace w @ [(mk w, r)]\<rparr>)) = res"
  using assms by (auto simp: block.simps call_def Let_def)

lemma run_check:
  assumes "block (check env # ss) w = res"
  obtains r where "ret r = 0" "block ss (w\<lparr>trace := trace w @ [(glGetError, r)]\<rparr>) = res"
  | r where "ret r \<noteq> 0" "res = Inl (AssertionFailed, w\<lparr>trace := trace w @ [(glGetError, r)]\<rparr>)"
  using assms by (cases "ret (respond env (trace w) glGetError) = 0") (auto simp: block.simps check_def Let_def)

lemma run_assign: "block (assign f # ss) w = block ss (f w)"
  by (simp add: block.simps assign_def)

lemma run_block: "block (block xs # ss) w = block (xs @ ss) w"
  by (induction xs arbitrary: w) (auto simp: block.simps split: sum.splits)

lemma run_render_call:
  "block ((\<lambda>w. render env (elapsed_long env (tv w) (tv_last w)) w) # ss) w =
   block (render env (elapsed_long env (tv w) (tv_last w)) # ss) w"
  by (simp add: block.simps)

lemmas run_simps = run_assign run_block run_render_call ignore_def block.simps(1)

lemma run_render:
  "block (render env delta # ss) w = block ([
     call env (\<lambda>w. printf (''%ld microseconds'' @ newline) [delta]) ignore,
     call env (\<lambda>w. glUseProgram (program (state w))) ignore,
     call env (\<lambda>w. glVertexAttribPointer (attr_vertex (state w)) 3 GL_FLOAT 0
         (3 * sizeof_GLfloat) 0) ignore,
     call env (\<lambda>w. glEnableVertexAttribArray (attr_vertex (state w))) ignore,
     call env (\<lambda>w. glDrawArrays GL_TRIANGLES 0 3) ignore] @ ss) w"
  unfolding render_def by (rule run_block)

lemma frame_outcome:
  assumes "frame env w = Inr w' \<or> frame env w = Inl (e, w')"
  shows "tv_last w' = tv w' \<and> state w' = state w \<and> trace w' = trace w @ new_events w w' \<and>
          new_calls w w' =
            [glClear GL_COLOR_BUFFER_BIT,
             gettimeofday NULL,
             printf (''%ld microseconds'' @ newline) [elapsed_long env (tv w') (tv_last w)],
             glUseProgram (program (state w)),
             glVertexAttribPointer (attr_vertex (state w)) 3 GL_FLOAT 0 12 0,
             glEnableVertexAttribArray (attr_vertex (state w)),
             glDrawArrays GL_TRIANGLES 0 3,
             eglSwapBuffers (display (state w)) (surface (state w)),
             glGetError]"
proof -
  have "tv_last v = tv v \<and> state v = state w \<and> trace v = trace w @ new_events w v \<and>
          new_calls w v =
            [glClear GL_COLOR_BUFFER_BIT,
             gettimeofday NULL,
             printf (''%ld microseconds'' @ newline) [elapsed_long env (tv v) (tv_last w)],
             glUseProgram (program (state w)),
             glVertexAttribPointer (attr_vertex (state w)) 3 GL_FLOAT 0 12 0,
             glEnableVertexAttribArray (attr_vertex (state w)),
             glDrawArrays GL_TRIANGLES 0 3,
             eglSwapBuffers (display (state w)) (surface (state w)),
             glGetError]"
    if "frame env w = res" "res = Inr v \<or> res = Inl (x, v)" for res v x
    using that unfolding frame_def new_calls_def new_events_def
    apply (elim run_call)
    apply (simp add: run_simps run_render sizeof_GLfloat_def)
    apply (elim run_call)
    apply (simp add: run_simps run_render sizeof_GLfloat_def)
    apply (elim run_call)
    apply (simp add: run_simps run_render sizeof_GLfloat_def)
    apply (elim run_check)
     apply (auto simp add: run_simps)
    done
  from this[OF refl, of w' e] assms show ?thesis by blast
qed

lemma init_scene_Inr:
  assumes "init_scene env w = Inr w'" "verbose (state w) = 0"
  shows "new_calls w w' = scene_calls (state w') \<and> trace w' = trace w @ new_events w w' \<and>
    ogl_calls w' = ogl_calls w \<and>
    (\<forall>c r. (c, r) \<in> set (new_events w w') \<longrightarrow> is_lookup c \<longrightarrow>
       attr_vertex (state w') = GLint_to_GLuint (ret r))"
  apply (insert assms)
  unfolding init_scene_def new_calls_def new_events_def scene_calls_def ogl_calls_def
  apply (elim step_call step_check | simp add: step_assign step_if_then ignore_def triangle_vertex_data_def sizeof_GLfloat_def)+
  apply clarsimp
  done

lemma init_ogl_Inr:
  assumes "init_ogl env w = Inr w'"
  shows "new_calls w w' = ogl_calls w' \<and> trace w' = trace w @ new_events w w'"
  apply (insert assms)
  unfolding init_ogl_def new_calls_def new_events_def ogl_calls_def
  apply (elim conjE step_call step_check | simp add: step_assign step_assert ignore_def)+
  apply clarsimp
  done

lemma render_loop_frames_Inr:
  "frames env n w = Inr w' \<Longrightarrow> render_loop env w = render_loop env w'"
proof (induction n arbitrary: w)
  case 0
  then show ?case by simp
next
  case (Suc n)
  then obtain w1 where 1: "frame env w = Inr w1" and 2: "frames env n w1 = Inr w'"
    by (auto split: sum.splits)
  have "render_loop env w = render_loop env w1"
    by (subst render_loop.simps) (simp add: 1)
  with Suc.IH[OF 2] show ?case by simp
qed

lemma render_loop_frames_Inl:
  "frames env n w = Inl e \<Longrightarrow> render_loop env w = Some (Inl e)"
proof (induction n arbitrary: w)
  case 0
  then show ?case by simp
next
  case (Suc n)
  show ?case
  proof (cases "frame env w")
    case (Inl a)
    with Suc.prems have "a = e" by simp
    with Inl show ?thesis by (subst render_loop.simps) simp
  next
    case (Inr w1)
    with Suc.prems have "frames env n w1 = Inl e" by simp
    from Suc.IH[OF this] Inr show ?thesis by (subst render_loop.simps) simp
  qed
qed

lemma render_loop_Some:
  assumes "render_loop env w = Some r"
  shows "\<exists>n e. r = Inl e \<and> frames env n w = Inl e"
proof (rule render_loop.raw_induct[where P = "\<lambda>env w r. \<exists>n e. r = Inl e \<and> frames env n w = Inl e",
      OF _ assms])
  fix f :: "env \<Rightarrow> world \<Rightarrow> outcome option" and env w r
  assume IH: "\<And>env w r. f env w = Some r \<Longrightarrow> \<exists>n e. r = Inl e \<and> frames env n w = Inl e"
    and eq: "(case frame env w of Inl e \<Rightarrow> Some (Inl e) | Inr w' \<Rightarrow> f env w') = Some r"
  show "\<exists>n e. r = Inl e \<and> frames env n w = Inl e"
  proof (cases "frame env w")
    case (Inl a)
    with eq have "r = Inl a" by simp
    moreover from Inl have "frames env (Suc 0) w = Inl a" by simp
    ultimately show ?thesis by blast
  next
    case (Inr w1)
    with eq have "f env w1 = Some r" by simp
    from IH[OF this] obtain n e where r: "r = Inl e" and "frames env n w1 = Inl e" by blast
    with Inr have "frames env (Suc n) w = Inl e" by simp
    with r show ?thesis by blast
  qed
qed

lemma render_loop_None:
  "render_loop env w = None \<longleftrightarrow> (\<forall>n. \<exists>w'. frames env n w = Inr w')"
proof
  assume none: "render_loop env w = None"
  show "\<forall>n. \<exists>w'. frames env n w = Inr w'"
  proof
    fix n
    show "\<exists>w'. frames env n w = Inr w'"
    proof (cases "frames env n w")
      case (Inl e)
      from render_loop_frames_Inl[OF this] none show ?thesis by simp
    next
      case (Inr w')
      then show ?thesis by blast
    qed
  qed
next
  assume all: "\<forall>n. \<exists>w'. frames env n w = Inr w'"
  show "render_loop env w = None"
  proof (cases "render_loop env w")
    case None
    then show ?thesis .
  next
    case (Some r)
    from render_loop_Some[OF this] obtain n e where "frames env n w = Inl e" by blast
    with all show ?thesis by (metis sum.distinct(1))
  qed
qed

lemma main_upto_Inl:
  "main_upto env n w0 = Inl x \<longleftrightarrow>
     main_setup env w0 = Inl x \<or> (\<exists>w1. main_setup env w0 = Inr w1 \<and> frames env n w1 = Inl x)"
  unfolding main_upto_def
  by (auto simp: block.simps split: sum.splits)

lemma main_upto_Inr:
  "main_upto env n w0 = Inr w \<longleftrightarrow> (\<exists>w1. main_setup env w0 = Inr w1 \<and> frames env n w1 = Inr w)"
  unfolding main_upto_def
  by (auto simp: block.simps split: sum.splits)

lemma main_stops:
  "main env w0 = Some (Inl x) \<longleftrightarrow> (\<exists>n. main_upto env n w0 = Inl x)"
proof
  assume m: "main env w0 = Some (Inl x)"
  show "\<exists>n. main_upto env n w0 = Inl x"
  proof (cases "main_setup env w0")
    case (Inl a)
    with m have "a = x" by (simp add: main_def)
    with Inl have "main_upto env 0 w0 = Inl x" by (simp add: main_upto_Inl)
    then show ?thesis ..
  next
    case (Inr w1)
    with m have "render_loop env w1 = Some (Inl x)"
      by (auto simp: main_def split: option.splits sum.splits dest: render_loop_Some)
    from render_loop_Some[OF this] obtain n where "frames env n w1 = Inl x" by auto
    with Inr have "main_upto env n w0 = Inl x" by (simp add: main_upto_Inl)
    then show ?thesis ..
  qed
next
  assume "\<exists>n. main_upto env n w0 = Inl x"
  then obtain n where "main_upto env n w0 = Inl x" ..
  then show "main env w0 = Some (Inl x)"
    by (auto simp: main_upto_Inl main_def dest: render_loop_frames_Inl)
qed

lemma main_not_Inr: "main env w0 \<noteq> Some (Inr x)"
proof
  assume m: "main env w0 = Some (Inr x)"
  then obtain w1 r where "main_setup env w0 = Inr w1" "render_loop env w1 = Some (Inr r)"
    by (auto simp: main_def split: option.splits sum.splits)
  with render_loop_Some[of env w1 "Inr r"] show False by auto
qed

lemma main_forever:
  "main env w0 = None \<longleftrightarrow> (\<forall>n. \<exists>w. main_upto env n w0 = Inr w)"
proof (cases "main_setup env w0")
  case (Inl a)
  then have "main_upto env 0 w0 = Inl a" by (simp add: main_upto_Inl)
  then have "\<not> (\<forall>n. \<exists>w. main_upto env n w0 = Inr w)" by (metis sum.distinct(1))
  with Inl show ?thesis by (simp add: main_def)
next
  case (Inr w1)
  then have "main env w0 = None \<longleftrightarrow> render_loop env w1 = None"
    by (auto simp: main_def split: option.splits sum.splits)
  with Inr show ?thesis by (simp add: render_loop_None main_upto_Inr)
qed

lemmas eval_defs = main_setup_def init_ogl_def init_scene_def frame_def render_def block.simps
  call_def check_def assert_def assign_def if_then_def ignore_def Let_def env_ok_def w_start_def
  zero_state_def EGL_NO_DISPLAY_def EGL_FALSE_def EGL_NO_CONTEXT_def EGL_NO_SURFACE_def
  EGL_DEFAULT_DISPLAY_def NULL_def elapsed_long_def elapsed_microseconds_def in_long_def GLint_to_GLuint_def
  sizeof_GLfloat_def triangle_vertex_data_def

lemma ogl_call_not:
  "ogl_call c \<Longrightarrow> \<not> is_upload c \<and> \<not> is_lookup c \<and> \<not> is_link c \<and> \<not> is_delete_shader c \<and>
     \<not> is_cleanup_call c \<and> \<not> is_log_call c"
  by (cases c) simp_all

lemma scene_call_not: "scene_call c \<Longrightarrow> \<not> is_cleanup_call c \<and> \<not> is_log_call c"
  by (cases c) simp_all

lemma viewport_not: "is_viewport c \<Longrightarrow> \<not> is_cleanup_call c \<and> \<not> is_log_call c"
  by (cases c) simp_all

lemma frame_call_not:
  "frame_call c \<Longrightarrow> \<not> is_upload c \<and> \<not> is_lookup c \<and> \<not> is_link c \<and> \<not> is_delete_shader c \<and>
     \<not> is_cleanup_call c \<and> \<not> is_log_call c \<and> \<not> creates_or_destroys c"
  by (cases c) (simp_all add: newline_def)

lemma main_call_not: "main_call c \<Longrightarrow> \<not> is_cleanup_call c \<and> \<not> is_log_call c"
  unfolding main_call_def
  using ogl_call_not scene_call_not viewport_not frame_call_not by blast

lemma always_state:
  assumes "\<And>s0. always (\<lambda>w. state w = s0) P s"
  shows "always (\<lambda>w. Q (state w)) P s"
  unfolding always_def follows_def
proof
  fix w
  have imp: "keeps (\<lambda>w. Q (state w)) P w w'" if "keeps (\<lambda>v. state v = state w) P w w'" for w'
    using that unfolding keeps_def by auto
  have "case s w of Inl (e, w') \<Rightarrow> keeps (\<lambda>v. state v = state w) P w w'
      | Inr w' \<Rightarrow> keeps (\<lambda>v. state v = state w) P w w'"
    using assms[of "state w"] unfolding always_def follows_def by blast
  then show "case s w of Inl (e, w') \<Rightarrow> keeps (\<lambda>w. Q (state w)) P w w'
      | Inr w' \<Rightarrow> keeps (\<lambda>w. Q (state w)) P w w'"
    using imp by (cases "s w") auto
qed

lemma main_upto_always:
  "always (\<lambda>w. verbose (state w) = 0) main_call
     (block [block [init_ogl env, init_scene env,
       call env (\<lambda>w. glViewport 0 0 (screen_width (state w)) (screen_height (state w))) ignore],
       frames env n])"
  by (intro always_Cons always_Nil always_call
      always_weaken[OF init_ogl_always, where Q = main_call]
      always_weaken[OF init_scene_always, where Q = main_call]
      always_weaken[OF always_state[where Q = "\<lambda>s. verbose s = 0", OF frames_always], where Q = main_call])
    (simp_all add: main_call_def ignore_def)

lemma main_upto_eq:
  "main_upto env n w0 = block [block [init_ogl env, init_scene env,
       call env (\<lambda>w. glViewport 0 0 (screen_width (state w)) (screen_height (state w))) ignore],
       frames env n] (w0\<lparr>state := zero_state\<rparr>)"
  unfolding main_upto_def main_setup_def
  by (simp add: block.simps assign_def split: sum.splits)

lemma main_upto_calls:
  assumes "main_upto env n w0 = Inr w \<or> main_upto env n w0 = Inl (e, w)"
  shows "verbose (state w) = 0" "trace w = trace w0 @ new_events w0 w"
    "list_all main_call (new_calls w0 w)"
proof -
  let ?w = "w0\<lparr>state := zero_state\<rparr>"
  have v: "verbose (state ?w) = 0" by (simp add: zero_state_def)
  note a = alwaysD[OF main_upto_always assms[unfolded main_upto_eq] v]
  show "verbose (state w) = 0" by (rule a(1))
  from a(2) show "trace w = trace w0 @ new_events w0 w" by (simp add: new_events_def)
  from a(3) show "list_all main_call (new_calls w0 w)" by (simp add: new_calls_def new_events_def)
qed

section \<open>The frame loop\<close>

text \<open>
  The \<^verbatim>\<open>double\<close> operations of the elapsed-time expression are exact: with 32-bit
  operands every intermediate value is an integer of magnitude below \<open>2 ^ 53\<close>.
\<close>

lemma elapsed_double_exact:
  fixes a b :: u32
  assumes "in_long ds"
  shows "\<bar>ds * 1000000\<bar> < 2 ^ 53" "\<bar>ds * 1000000 + sint a\<bar> < 2 ^ 53"
    "\<bar>ds * 1000000 + sint a - sint b\<bar> < 2 ^ 53"
  using assms sint_ge[of a] sint_lt[of a] sint_ge[of b] sint_lt[of b]
  unfolding in_long_def by (simp_all add: abs_less_iff)

text \<open>
  C2. In an iteration of the frame loop that starts with the previous timestamp
  \<open>t0 = (sec = 10, usec = 500000)\<close> in \<open>tv_last\<close> and captures
  \<open>t1 = (sec = 11, usec = 100000)\<close>, the elapsed-time value is 600000, and it is the value
  passed to \<open>render\<close>, which prints it.
\<close>

theorem frame_elapsed_600000:
  assumes "tv_last w = \<lparr>tv_sec = 10, tv_usec = 500000\<rparr>"
    and "frame env w = Inr w' \<or> frame env w = Inl (AssertionFailed, w')"
    and "tv w' = \<lparr>tv_sec = 11, tv_usec = 100000\<rparr>"
  shows "elapsed_microseconds (tv w') (tv_last w) = Some 600000 \<and>
     new_calls w w' =
       [glClear GL_COLOR_BUFFER_BIT,
        gettimeofday NULL,
        printf (''%ld microseconds'' @ newline) [600000],
        glUseProgram (program (state w)),
        glVertexAttribPointer (attr_vertex (state w)) 3 GL_FLOAT 0 12 0,
        glEnableVertexAttribArray (attr_vertex (state w)),
        glDrawArrays GL_TRIANGLES 0 3,
        eglSwapBuffers (display (state w)) (surface (state w)),
        glGetError]"
proof -
  have e: "elapsed_microseconds (tv w') (tv_last w) = Some 600000"
    by (simp add: assms(1,3) elapsed_microseconds_def in_long_def Let_def)
  then have "elapsed_long env (tv w') (tv_last w) = 600000"
    by (simp add: elapsed_long_def)
  with frame_outcome[of env w w' AssertionFailed] assms(2) e show ?thesis by simp
qed

lemma frame_env_ok:
  "frame env_ok w_start = Inr (projr (frame env_ok w_start))"
  "tv (projr (frame env_ok w_start)) = \<lparr>tv_sec = 11, tv_usec = 100000\<rparr>"
  "tv_last w_start = \<lparr>tv_sec = 10, tv_usec = 500000\<rparr>"
  by (simp_all add: eval_defs)

theorem frame_elapsed_600000_witness:
  "tv_last w_start = \<lparr>tv_sec = 10, tv_usec = 500000\<rparr> \<and>
   frame env_ok w_start = Inr (projr (frame env_ok w_start)) \<and>
   tv (projr (frame env_ok w_start)) = \<lparr>tv_sec = 11, tv_usec = 100000\<rparr> \<and>
   elapsed_microseconds (tv (projr (frame env_ok w_start))) (tv_last w_start) = Some 600000 \<and>
   new_calls w_start (projr (frame env_ok w_start)) =
       [glClear GL_COLOR_BUFFER_BIT,
        gettimeofday NULL,
        printf (''%ld microseconds'' @ newline) [600000],
        glUseProgram 0,
        glVertexAttribPointer 0 3 GL_FLOAT 0 12 0,
        glEnableVertexAttribArray 0,
        glDrawArrays GL_TRIANGLES 0 3,
        eglSwapBuffers 0 0,
        glGetError]"
  using frame_elapsed_600000[of w_start env_ok "projr (frame env_ok w_start)"] frame_env_ok
  by (simp add: w_start_def zero_state_def)

text \<open>
  C4. Every iteration of the frame loop, whether it completes or its final check aborts,
  and whatever the elapsed-time value is, issues exactly one clear of the color buffer,
  then exactly one draw of 3 vertices as triangles, then exactly one buffer swap, and no
  other clear, draw or swap.
\<close>

theorem frame_clear_draw_swap:
  assumes "frame env w = Inr w' \<or> frame env w = Inl (e, w')"
  shows "trace w' = trace w @ new_events w w' \<and>
     filter (\<lambda>c. is_clear c \<or> is_draw c \<or> is_swap c) (new_calls w w') =
       [glClear GL_COLOR_BUFFER_BIT,
        glDrawArrays GL_TRIANGLES 0 3,
        eglSwapBuffers (display (state w)) (surface (state w))]"
  using frame_outcome[OF assms] by simp

theorem frame_clear_draw_swap_witness:
  "frame env_ok w_start = Inr (projr (frame env_ok w_start)) \<and>
   filter (\<lambda>c. is_clear c \<or> is_draw c \<or> is_swap c)
     (new_calls w_start (projr (frame env_ok w_start))) =
       [glClear GL_COLOR_BUFFER_BIT, glDrawArrays GL_TRIANGLES 0 3, eglSwapBuffers 0 0]"
  using frame_clear_draw_swap[of env_ok w_start "projr (frame env_ok w_start)"] frame_env_ok(1)
  by (simp add: w_start_def zero_state_def)

lemma frames_outcome:
  assumes "frames env n w = Inr w' \<or> frames env n w = Inl (e, w')"
  shows "state w' = state w" "trace w' = trace w @ new_events w w'"
    "list_all frame_call (new_calls w w')"
  using alwaysD[OF frames_always[of "state w" env n] assms] by simp_all

text \<open>
  C8. However many iterations of the frame loop have run, and whether the last one
  completed or stopped, the state record is what it was when the loop started and no call
  made since then creates or destroys a graphics resource.
\<close>

theorem frames_keep_state_and_resources:
  assumes "frames env n w = Inr w' \<or> frames env n w = Inl (e, w')"
  shows "state w' = state w \<and> trace w' = trace w @ new_events w w' \<and>
     list_all (\<lambda>c. \<not> creates_or_destroys c) (new_calls w w')"
proof -
  from frames_outcome(3)[OF assms] have "list_all (\<lambda>c. \<not> creates_or_destroys c) (new_calls w w')"
    unfolding list_all_iff using frame_call_not by blast
  with frames_outcome(1,2)[OF assms] show ?thesis by simp
qed

lemma frames_env_ok:
  "frames env_ok 2 w_start = Inr (projr (frames env_ok 2 w_start))"
  by (simp add: eval_defs numeral_2_eq_2)

theorem frames_keep_state_and_resources_witness:
  "frames env_ok 2 w_start = Inr (projr (frames env_ok 2 w_start)) \<and>
   state (projr (frames env_ok 2 w_start)) = state w_start \<and>
   list_all (\<lambda>c. \<not> creates_or_destroys c) (new_calls w_start (projr (frames env_ok 2 w_start)))"
  using frames_keep_state_and_resources[of env_ok 2 w_start "projr (frames env_ok 2 w_start)"]
    frames_env_ok
  by simp

section \<open>Setup and the whole run\<close>

lemma tv_last_init_ogl: "always (\<lambda>w. tv_last w = t) (\<lambda>c. True) (init_ogl env)"
  unfolding init_ogl_def
  by (intro always_intros) (simp_all add: ignore_def)

lemma tv_last_showlog: "always (\<lambda>w. tv_last w = t) (\<lambda>c. True) (showlog env sh)"
  unfolding showlog_def
  by (intro always_intros) (simp_all add: ignore_def)

lemma tv_last_showprogramlog: "always (\<lambda>w. tv_last w = t) (\<lambda>c. True) (showprogramlog env sh)"
  unfolding showprogramlog_def
  by (intro always_intros) (simp_all add: ignore_def)

lemma tv_last_init_scene: "always (\<lambda>w. tv_last w = t) (\<lambda>c. True) (init_scene env)"
  unfolding init_scene_def
  by (intro always_if_then tv_last_showlog tv_last_showprogramlog always_intros)
    (simp_all add: ignore_def)

lemma main_setup_Inr:
  assumes "main_setup env w0 = Inr w1"
  obtains wa wb r where "init_ogl env (w0\<lparr>state := zero_state\<rparr>) = Inr wa"
    "init_scene env wa = Inr wb"
    "w1 = wb\<lparr>trace := trace wb @
       [(glViewport 0 0 (screen_width (state wb)) (screen_height (state wb)), r)]\<rparr>"
  using assms unfolding main_setup_def
  by (auto simp: block_Cons_Inr assign_Inr ignore_def elim!: call_InrE)

lemma setup_events:
  assumes "main_setup env w0 = Inr w1"
  shows "\<exists>evA evB r.
     new_events w0 w1 = evA @ evB @
       [(glViewport 0 0 (screen_width (state w1)) (screen_height (state w1)), r)] \<and>
     trace w1 = trace w0 @ new_events w0 w1 \<and>
     list_all ogl_call (map fst evA) \<and> map fst evA = ogl_calls w1 \<and>
     map fst evB = scene_calls (state w1) \<and>
     (\<forall>c r. (c, r) \<in> set evB \<longrightarrow> is_lookup c \<longrightarrow>
        attr_vertex (state w1) = GLint_to_GLuint (ret r)) \<and>
     verbose (state w1) = 0 \<and> tv_last w1 = tv_last w0"
proof -
  let ?w = "w0\<lparr>state := zero_state\<rparr>"
  from main_setup_Inr[OF assms] obtain wa wb r where
    ogl: "init_ogl env ?w = Inr wa" and scene: "init_scene env wa = Inr wb" and
    w1: "w1 = wb\<lparr>trace := trace wb @
       [(glViewport 0 0 (screen_width (state wb)) (screen_height (state wb)), r)]\<rparr>"
    by blast
  have v0: "verbose (state ?w) = 0" by (simp add: zero_state_def)
  note a = alwaysD[OF init_ogl_always[of 0 env], of ?w wa, OF disjI1[OF ogl] v0]
  note s = init_scene_Inr[OF scene a(1)]
  have va: "verbose (state wb) = 0"
    using alwaysD(1)[OF init_scene_always, of env wa wb, OF disjI1[OF scene] a(1)] .
  have t1: "tv_last wa = tv_last w0"
    using alwaysD(1)[OF tv_last_init_ogl[of "tv_last w0" env], of ?w wa, OF disjI1[OF ogl]] by simp
  have t2: "tv_last wb = tv_last w0"
    using alwaysD(1)[OF tv_last_init_scene[of "tv_last w0" env], of wa wb, OF disjI1[OF scene] t1] .
  let ?A = "new_events ?w wa" and ?B = "new_events wa wb"
  have tr: "trace w1 = trace w0 @ ?A @ ?B @
       [(glViewport 0 0 (screen_width (state w1)) (screen_height (state w1)), r)]"
    using a(2) s w1 by simp
  have "new_events w0 w1 = ?A @ ?B @
       [(glViewport 0 0 (screen_width (state w1)) (screen_height (state w1)), r)]"
    unfolding new_events_def[of w0 w1] tr by simp
  moreover have "trace w1 = trace w0 @ new_events w0 w1"
    unfolding new_events_def[of w0 w1] tr by simp
  moreover have "list_all ogl_call (map fst ?A)"
    using a(3) by (simp add: new_calls_def list_all_iff)
  moreover have "map fst ?A = ogl_calls w1"
    using init_ogl_Inr[OF ogl] s w1 by (simp add: new_calls_def ogl_calls_def)
  moreover have "map fst ?B = scene_calls (state w1)"
    using s w1 by (simp add: new_calls_def)
  moreover have "\<forall>c r. (c, r) \<in> set ?B \<longrightarrow> is_lookup c \<longrightarrow>
        attr_vertex (state w1) = GLint_to_GLuint (ret r)"
    using s w1 by simp
  moreover have "verbose (state w1) = 0" "tv_last w1 = tv_last w0"
    using va t2 w1 by simp_all
  ultimately show ?thesis by blast
qed

lemma setup_run_calls:
  assumes "main_setup env w0 = Inr w1"
    and "frames env n w1 = Inr w2 \<or> frames env n w1 = Inl (e, w2)"
  shows "\<exists>pre post. list_all ogl_call pre \<and> list_all frame_call post \<and>
     pre = ogl_calls w1 \<and> post = new_calls w1 w2 \<and>
     new_calls w0 w2 = pre @ scene_calls (state w1) @
       [glViewport 0 0 (screen_width (state w1)) (screen_height (state w1))] @ post \<and>
     new_events w0 w2 = new_events w0 w1 @ new_events w1 w2 \<and>
     state w2 = state w1"
proof -
  from setup_events[OF assms(1)] obtain evA evB r where
    ev: "new_events w0 w1 = evA @ evB @
       [(glViewport 0 0 (screen_width (state w1)) (screen_height (state w1)), r)]"
    and tr: "trace w1 = trace w0 @ new_events w0 w1"
    and A: "list_all ogl_call (map fst evA)" and A': "map fst evA = ogl_calls w1"
    and B: "map fst evB = scene_calls (state w1)"
    by blast
  note f = frames_outcome[OF assms(2)]
  have split: "new_events w0 w2 = new_events w0 w1 @ new_events w1 w2"
    unfolding new_events_def[of w0 w2] by (subst f(2), subst tr) simp
  then have "new_calls w0 w2 = ogl_calls w1 @ scene_calls (state w1) @
       [glViewport 0 0 (screen_width (state w1)) (screen_height (state w1))] @ new_calls w1 w2"
    by (simp add: new_calls_def ev B A'[symmetric])
  with A A' split f(1,3) show ?thesis by simp
qed

text \<open>
  C3. Once scene setup has completed, and however many frames have run since, the calls of
  the process contain exactly one buffer upload: the 9 floats (-1,-1,0), (1,-1,0), (0,1,0)
  in this order, 36 bytes, with the static-draw usage.
\<close>

theorem vertex_buffer_uploaded_once:
  assumes "main_setup env w0 = Inr w1"
    and "frames env n w1 = Inr w2 \<or> frames env n w1 = Inl (e, w2)"
  shows "filter is_upload (new_calls w0 w2) =
     [glBufferData GL_ARRAY_BUFFER 36 [-1, -1, 0, 1, -1, 0, 0, 1, 0] GL_STATIC_DRAW]"
proof -
  from setup_run_calls[OF assms] obtain pre post where
    pre: "list_all ogl_call pre" and post: "list_all frame_call post" and
    calls: "new_calls w0 w2 = pre @ scene_calls (state w1) @
       [glViewport 0 0 (screen_width (state w1)) (screen_height (state w1))] @ post"
    by blast
  have "filter is_upload pre = []" "filter is_upload post = []"
    using pre post ogl_call_not frame_call_not by (auto simp: list_all_iff filter_empty_conv)
  then show ?thesis
    by (simp add: calls scene_calls_def)
qed

lemma setup_env_ok: "main_setup env_ok w_start = Inr (projr (main_setup env_ok w_start))"
  by (simp add: eval_defs)

theorem vertex_buffer_uploaded_once_witness:
  "main_setup env_ok w_start = Inr (projr (main_setup env_ok w_start)) \<and>
   frames env_ok 0 (projr (main_setup env_ok w_start)) = Inr (projr (main_setup env_ok w_start)) \<and>
   filter is_upload (new_calls w_start (projr (main_setup env_ok w_start))) =
     [glBufferData GL_ARRAY_BUFFER 36 [-1, -1, 0, 1, -1, 0, 0, 1, 0] GL_STATIC_DRAW]"
  using vertex_buffer_uploaded_once[of env_ok w_start "projr (main_setup env_ok w_start)" 0
      "projr (main_setup env_ok w_start)"]
    setup_env_ok
  by simp

section \<open>Cleanup, logs and shader objects\<close>

lemmas eval_more = eval_defs main_upto_def main_def env_lookup_fails_def env_init_fails_def
  new_calls_def new_events_def

text \<open>
  C5. \<open>main\<close> never returns: no run ends with an exit code, and neither a run that has
  stopped nor a run that is still in the frame loop has called \<open>glDeleteProgram\<close> or
  \<open>glDeleteBuffers\<close>.
\<close>

theorem cleanup_and_return_never_reached:
  "main env w0 \<noteq> Some (Inr (c, w)) \<and>
   (main env w0 = Some (Inl (e, w)) \<longrightarrow>
      list_all (\<lambda>c. \<not> is_cleanup_call c) (new_calls w0 w)) \<and>
   (main_upto env n w0 = Inr w \<longrightarrow>
      list_all (\<lambda>c. \<not> is_cleanup_call c) (new_calls w0 w))"
proof (intro conjI impI)
  show "main env w0 \<noteq> Some (Inr (c, w))" by (rule main_not_Inr)
next
  assume "main env w0 = Some (Inl (e, w))"
  then obtain k where "main_upto env k w0 = Inl (e, w)"
    unfolding main_stops by blast
  from main_upto_calls(3)[OF disjI2[OF this]]
  show "list_all (\<lambda>c. \<not> is_cleanup_call c) (new_calls w0 w)"
    unfolding list_all_iff using main_call_not by blast
next
  assume "main_upto env n w0 = Inr w"
  from main_upto_calls(3)[OF disjI1[OF this]]
  show "list_all (\<lambda>c. \<not> is_cleanup_call c) (new_calls w0 w)"
    unfolding list_all_iff using main_call_not by blast
qed

lemma main_env_init_fails:
  "main env_init_fails w_start = Some (Inl (AssertionFailed, snd (projl (main_setup env_init_fails w_start))))"
  by (simp add: eval_more)

lemma main_upto_env_ok:
  "main_upto env_ok 1 w_start = Inr (projr (main_upto env_ok 1 w_start))"
  by (simp add: eval_more)

theorem cleanup_and_return_never_reached_witness:
  "main env_init_fails w_start =
     Some (Inl (AssertionFailed, snd (projl (main_setup env_init_fails w_start)))) \<and>
   list_all (\<lambda>c. \<not> is_cleanup_call c)
     (new_calls w_start (snd (projl (main_setup env_init_fails w_start)))) \<and>
   main_upto env_ok 1 w_start = Inr (projr (main_upto env_ok 1 w_start)) \<and>
   list_all (\<lambda>c. \<not> is_cleanup_call c) (new_calls w_start (projr (main_upto env_ok 1 w_start)))"
  using cleanup_and_return_never_reached[of env_init_fails w_start 0
      "snd (projl (main_setup env_init_fails w_start))" AssertionFailed 0]
    cleanup_and_return_never_reached[of env_ok w_start 0
      "projr (main_upto env_ok 1 w_start)" AssertionFailed 1]
    main_env_init_fails main_upto_env_ok
  by simp

text \<open>
  C6. At every point of every run, stopped or still running, the verbose flag is zero and
  no call that fetches or prints a shader or program log has been made.
\<close>

theorem verbose_zero_no_logs:
  assumes "main_upto env n w0 = Inr w \<or> main_upto env n w0 = Inl (e, w)"
  shows "verbose (state w) = 0 \<and> list_all (\<lambda>c. \<not> is_log_call c) (new_calls w0 w)"
proof -
  from main_upto_calls(3)[OF assms]
  have "list_all (\<lambda>c. \<not> is_log_call c) (new_calls w0 w)"
    unfolding list_all_iff using main_call_not by blast
  with main_upto_calls(1)[OF assms] show ?thesis by simp
qed

theorem verbose_zero_no_logs_witness:
  "main_upto env_ok 1 w_start = Inr (projr (main_upto env_ok 1 w_start)) \<and>
   verbose (state (projr (main_upto env_ok 1 w_start))) = 0 \<and>
   list_all (\<lambda>c. \<not> is_log_call c) (new_calls w_start (projr (main_upto env_ok 1 w_start)))"
  using verbose_zero_no_logs[of env_ok 1 w_start "projr (main_upto env_ok 1 w_start)"]
    main_upto_env_ok
  by simp

lemma init_scene_verbose_prints_logs:
  "filter is_log_call
     (new_calls (w_start\<lparr>state := zero_state\<lparr>verbose := 1\<rparr>\<rparr>)
        (projr (init_scene env_ok (w_start\<lparr>state := zero_state\<lparr>verbose := 1\<rparr>\<rparr>)))) =
     [glGetShaderInfoLog 1 1024 NULL,
      printf (''%d:shader:'' @ newline @ ''%s'' @ newline) [1],
      glGetShaderInfoLog 2 1024 NULL,
      printf (''%d:shader:'' @ newline @ ''%s'' @ newline) [2],
      glGetProgramInfoLog 3 1024 NULL,
      printf (''%d:program:'' @ newline @ ''%s'' @ newline) [3]]"
  by (simp add: eval_more showlog_def showprogramlog_def)




section \<open>Unchecked results\<close>

text \<open>
  For a clock reading of ordinary size, every value of type \<^verbatim>\<open>long\<close> is the elapsed
  time for some content of \<open>tv_last\<close>.
\<close>

lemma elapsed_any_value:
  fixes t :: timeval and d :: int
  assumes "in_long d" and "\<bar>sint (tv_sec t)\<bar> < 2 ^ 30" and "\<bar>sint (tv_usec t)\<bar> < 2 ^ 30"
  shows "\<exists>t_last. elapsed_microseconds t t_last = Some (word_of_int d)"
proof -
  define q where "q = d div 1000000"
  define r where "r = d mod 1000000"
  have d: "d = q * 1000000 + r" by (simp add: q_def r_def)
  have r: "0 \<le> r" "r < 1000000" by (simp_all add: r_def)
  have q: "- 2148 \<le> q" "q \<le> 2147"
    using assms(1) unfolding in_long_def q_def by (simp_all, linarith+)
  define ws :: u32 where "ws = word_of_int (sint (tv_sec t) - q)"
  define wu :: u32 where "wu = word_of_int (sint (tv_usec t) - r)"
  have "- (2 ^ 31) \<le> sint (tv_sec t) - q" "sint (tv_sec t) - q < 2 ^ 31"
    using assms(2) q by simp_all
  then have s: "sint ws = sint (tv_sec t) - q"
    unfolding ws_def by (subst sint_sbintrunc', intro signed_take_bit_int_eq_self) simp_all
  have "- (2 ^ 31) \<le> sint (tv_usec t) - r" "sint (tv_usec t) - r < 2 ^ 31"
    using assms(3) r by simp_all
  then have u: "sint wu = sint (tv_usec t) - r"
    unfolding wu_def by (subst sint_sbintrunc', intro signed_take_bit_int_eq_self) simp_all
  have "elapsed_microseconds t \<lparr>tv_sec = ws, tv_usec = wu\<rparr> = Some (word_of_int d)"
    using assms(1) q
    by (simp add: elapsed_microseconds_def Let_def s u in_long_def d[symmetric])
  then show ?thesis ..
qed



text \<open>
  Under the same driver and clock, other contents of \<open>tv_last\<close> print other values: 600000
  for 10 s 500000 us, 6099993 for 5 s 7 us.
\<close>

lemma first_frame_other_contents:
  "new_calls (projr (main_setup env_ok w_start))
     (projr (frame env_ok (projr (main_setup env_ok w_start)))) ! 2 =
     printf (''%ld microseconds'' @ newline) [600000]"
  "new_calls (projr (main_setup env_ok (w_start\<lparr>tv_last := \<lparr>tv_sec = 5, tv_usec = 7\<rparr>\<rparr>)))
     (projr (frame env_ok (projr (main_setup env_ok (w_start\<lparr>tv_last := \<lparr>tv_sec = 5, tv_usec = 7\<rparr>\<rparr>))))) ! 2 =
     printf (''%ld microseconds'' @ newline) [6099993]"
  by (simp_all add: eval_more)


text \<open>
  C10. When setup has completed although the attribute lookup returned -1, the location
  stored in the unsigned field is 4294967295, and every iteration of the frame loop,
  whatever its elapsed-time value and however it ends, passes this value to
  \<open>glVertexAttribPointer\<close> and to \<open>glEnableVertexAttribArray\<close>.
\<close>

theorem failed_lookup_wraps_and_is_used:
  assumes "main_setup env w0 = Inr w1"
    and "(glGetAttribLocation p nm, r) \<in> set (new_events w0 w1)"
    and "sint (ret r) = - 1"
  shows "attr_vertex (state w1) = 4294967295 \<and>
     (\<forall>n wn w' e. frames env n w1 = Inr wn \<longrightarrow>
        (frame env wn = Inr w' \<or> frame env wn = Inl (e, w')) \<longrightarrow>
        new_calls wn w' ! 4 = glVertexAttribPointer 4294967295 3 GL_FLOAT 0 12 0 \<and>
        new_calls wn w' ! 5 = glEnableVertexAttribArray 4294967295)"
proof -
  from setup_events[OF assms(1)] obtain evA evB rv where
    ev: "new_events w0 w1 = evA @ evB @
       [(glViewport 0 0 (screen_width (state w1)) (screen_height (state w1)), rv)]"
    and A: "list_all ogl_call (map fst evA)"
    and B: "\<forall>c r. (c, r) \<in> set evB \<longrightarrow> is_lookup c \<longrightarrow>
        attr_vertex (state w1) = GLint_to_GLuint (ret r)"
    by blast
  have "(glGetAttribLocation p nm, r) \<notin> set evA"
    using A by (auto simp: list_all_iff)
  with assms(2) ev have "(glGetAttribLocation p nm, r) \<in> set evB" by auto
  with B have "attr_vertex (state w1) = GLint_to_GLuint (ret r)" by simp
  also have "\<dots> = word_of_int (- 1)" by (simp only: GLint_to_GLuint_def assms(3))
  also have "\<dots> = (4294967295 :: u32)" by simp
  finally have a: "attr_vertex (state w1) = 4294967295" .
  have "new_calls wn w' ! 4 = glVertexAttribPointer 4294967295 3 GL_FLOAT 0 12 0 \<and>
        new_calls wn w' ! 5 = glEnableVertexAttribArray 4294967295"
    if "frames env n w1 = Inr wn" "frame env wn = Inr w' \<or> frame env wn = Inl (e, w')"
    for n wn w' e
  proof -
    from frames_outcome(1)[OF disjI1[OF that(1)]] a have "attr_vertex (state wn) = 4294967295"
      by simp
    with frame_outcome[OF that(2)] show ?thesis by simp
  qed
  with a show ?thesis by blast
qed

lemma setup_env_lookup_fails:
  "main_setup env_lookup_fails w_garbage = Inr (projr (main_setup env_lookup_fails w_garbage))"
  "(glGetAttribLocation 3 ''vertex'', Resp (- 1) 0 0) \<in>
     set (new_events w_garbage (projr (main_setup env_lookup_fails w_garbage)))"
  "frames env_lookup_fails 1 (projr (main_setup env_lookup_fails w_garbage)) =
     Inr (projr (frames env_lookup_fails 1 (projr (main_setup env_lookup_fails w_garbage))))"
  "frame env_lookup_fails
     (projr (frames env_lookup_fails 1 (projr (main_setup env_lookup_fails w_garbage)))) =
   Inr (projr (frame env_lookup_fails
     (projr (frames env_lookup_fails 1 (projr (main_setup env_lookup_fails w_garbage))))))"
  by (simp_all add: eval_more w_garbage_def)

theorem failed_lookup_wraps_and_is_used_witness:
  "main_setup env_lookup_fails w_garbage = Inr (projr (main_setup env_lookup_fails w_garbage)) \<and>
   (glGetAttribLocation 3 ''vertex'', Resp (- 1) 0 0) \<in>
     set (new_events w_garbage (projr (main_setup env_lookup_fails w_garbage))) \<and>
   sint (ret (Resp (- 1) 0 0)) = - 1 \<and>
   attr_vertex (state (projr (main_setup env_lookup_fails w_garbage))) = 4294967295 \<and>
   new_calls (projr (frames env_lookup_fails 1 (projr (main_setup env_lookup_fails w_garbage))))
     (projr (frame env_lookup_fails
       (projr (frames env_lookup_fails 1 (projr (main_setup env_lookup_fails w_garbage)))))) ! 4 =
     glVertexAttribPointer 4294967295 3 GL_FLOAT 0 12 0"
proof -
  have s: "sint (ret (Resp (- 1) 0 0)) = - 1" by simp
  note t = failed_lookup_wraps_and_is_used[OF setup_env_lookup_fails(1,2) s]
  from t have "new_calls
     (projr (frames env_lookup_fails 1 (projr (main_setup env_lookup_fails w_garbage))))
     (projr (frame env_lookup_fails
       (projr (frames env_lookup_fails 1 (projr (main_setup env_lookup_fails w_garbage)))))) ! 4 =
     glVertexAttribPointer 4294967295 3 GL_FLOAT 0 12 0"
    using setup_env_lookup_fails(3,4) by blast
  with t s setup_env_lookup_fails(1,2) show ?thesis by blast
qed

text \<open>
  C1, as stated, fails: the attribute lookup returns the failure value -1, no assertion
  fires, the next step \<open>glGenBuffers\<close> runs and setup completes.
\<close>

theorem lookup_failure_not_asserted:
  "main_setup env_lookup_fails w_start = Inr (projr (main_setup env_lookup_fails w_start)) \<and>
   take 2 (drop 39 (new_events w_start (projr (main_setup env_lookup_fails w_start)))) =
     [(glGetAttribLocation 3 ''vertex'', Resp (- 1) 0 0), (glGenBuffers 1, Resp 0 1 0)] \<and>
   sint (ret (Resp (- 1) 0 0)) = - 1"
  by (simp add: eval_more)

text \<open>
  C1, amended. A setup that completes has made exactly the calls of \<open>ogl_calls\<close>, of
  \<open>scene_calls\<close> and \<open>glViewport\<close>, in this order: \<open>check()\<close> follows each EGL call,
  the dispmanx submit, the initial clear, each shader compile, the link and the buffer
  generation. The results the code asserts on are the values returned by
  \<open>eglGetDisplay\<close>, \<open>eglInitialize\<close>, \<open>eglChooseConfig\<close>, \<open>eglBindAPI\<close>,
  \<open>eglCreateContext\<close>, \<open>eglCreateWindowSurface\<close>, \<open>eglMakeCurrent\<close> (failure sentinel),
  by \<open>graphics_get_display_size\<close> (negative), and the error code read by each
  \<open>check()\<close>. Setup completes only if none of them failed, and it aborts exactly at the
  first of them that fails: the failing call is the last call the process makes.
\<close>

theorem setup_checks_and_aborts_at_first_failure:
  "(main_setup env w = Inr w' \<longrightarrow>
      checks_pass w w' \<and>
      new_calls w w' = ogl_calls w' @ scene_calls (state w') @
        [glViewport 0 0 (screen_width (state w')) (screen_height (state w'))] \<and>
      each_followed_by_check (new_calls w w')) \<and>
   (main_setup env w = Inl (e, w') \<longrightarrow> stops_at_failure e w w')"
proof -
  have "follows checks_pass stops_at_failure (main_setup env)"
    unfolding main_setup_def
    by (intro follows_Cons follows_Nil composes_checks cp_assign cp_call
        init_ogl_checks init_scene_checks)
      (simp_all add: ignore_def)
  from followsD[OF this, of w]
  have 1: "main_setup env w = Inr w' \<longrightarrow> checks_pass w w'"
    and 2: "main_setup env w = Inl (e, w') \<longrightarrow> stops_at_failure e w w'"
    by (auto split: sum.splits)
  have 3: "new_calls w w' = ogl_calls w' @ scene_calls (state w') @
        [glViewport 0 0 (screen_width (state w')) (screen_height (state w'))]"
    if "main_setup env w = Inr w'"
    using setup_run_calls[OF that, of 0 w'] by (simp add: new_calls_def new_events_def)
  have 4: "each_followed_by_check (ogl_calls w' @ scene_calls (state w') @
        [glViewport 0 0 (screen_width (state w')) (screen_height (state w'))])"
    by (simp add: ogl_calls_def scene_calls_def)
  from 1 2 3 4 show ?thesis by auto
qed

lemma setup_env_init_fails:
  "main_setup env_init_fails w_start =
     Inl (AssertionFailed, snd (projl (main_setup env_init_fails w_start)))"
  "new_events w_start (snd (projl (main_setup env_init_fails w_start))) =
     [(bcm_host_init, Resp 1 0 0),
      (eglGetDisplay EGL_DEFAULT_DISPLAY, Resp 1 0 0),
      (glGetError, Resp 0 0 0),
      (eglInitialize 1 NULL NULL, Resp EGL_FALSE 0 0)]"
  by (simp_all add: eval_more)

theorem setup_checks_and_aborts_at_first_failure_witness:
  "main_setup env_ok w_start = Inr (projr (main_setup env_ok w_start)) \<and>
   checks_pass w_start (projr (main_setup env_ok w_start)) \<and>
   new_calls w_start (projr (main_setup env_ok w_start)) =
     ogl_calls (projr (main_setup env_ok w_start)) @
     scene_calls (state (projr (main_setup env_ok w_start))) @
     [glViewport 0 0 1920 1080] \<and>
   main_setup env_init_fails w_start =
     Inl (AssertionFailed, snd (projl (main_setup env_init_fails w_start))) \<and>
   stops_at_failure AssertionFailed w_start (snd (projl (main_setup env_init_fails w_start))) \<and>
   new_events w_start (snd (projl (main_setup env_init_fails w_start))) =
     [(bcm_host_init, Resp 1 0 0),
      (eglGetDisplay EGL_DEFAULT_DISPLAY, Resp 1 0 0),
      (glGetError, Resp 0 0 0),
      (eglInitialize 1 NULL NULL, Resp EGL_FALSE 0 0)]"
proof -
  have d: "screen_width (state (projr (main_setup env_ok w_start))) = 1920"
    "screen_height (state (projr (main_setup env_ok w_start))) = 1080"
    by (simp_all add: eval_more)
  from setup_checks_and_aborts_at_first_failure[of env_ok w_start
      "projr (main_setup env_ok w_start)" AssertionFailed]
    setup_checks_and_aborts_at_first_failure[of env_init_fails w_start
      "snd (projl (main_setup env_init_fails w_start))" AssertionFailed]
    setup_env_ok setup_env_init_fails d
  show ?thesis by simp
qed

section \<open>A run that never ends\<close>

lemma frame_env_ok_completes: "\<exists>w'. frame env_ok w = Inr w'"
  by (simp add: frame_def render_def block.simps call_def check_def assign_def ignore_def
      Let_def env_ok_def)

lemma frames_env_ok_complete: "\<exists>w'. frames env_ok n w = Inr w'"
proof (induction n arbitrary: w)
  case 0
  then show ?case by simp
next
  case (Suc n)
  from frame_env_ok_completes obtain w1 where 1: "frame env_ok w = Inr w1"
    by blast
  from Suc.IH[of w1] 1 show ?case by simp
qed

text \<open>On the driver on which every call succeeds, \<open>main\<close> never ends.\<close>

lemma main_env_ok_runs_forever: "main env_ok w_start = None"
proof -
  from frames_env_ok_complete
  have "\<forall>n. \<exists>w. main_upto env_ok n w_start = Inr w"
    unfolding main_upto_Inr using setup_env_ok by metis
  then show ?thesis by (simp add: main_forever)
qed

end
